theory Spec2Isabelle
  imports Complex_Main "HOL-Library.AList" "HOL-Library.Multiset"
begin

section \<open>Upgrade-progress calculator (src/utils/utils.py)\<close>

text \<open>
  An item is a Python dict; the calculator reads its keys \<open>rarity\<close> and \<open>level\<close> only.
  Python integers are unbounded, hence \<open>int\<close>. A cost table is a dict literal from target
  level to cards; it is kept as an association list with distinct keys so that
  \<open>sum(cards_per_level.values())\<close> can be computed.
\<close>

record item =
  rarity :: string
  level :: int

type_synonym cost_table = "(int \<times> int) list"

text \<open>\<open>d.get(k, default)\<close> on an association list.\<close>

definition dict_get :: "('k \<times> 'v) list \<Rightarrow> 'k \<Rightarrow> 'v \<Rightarrow> 'v" where
  "dict_get d k dflt = (case map_of d k of None \<Rightarrow> dflt | Some v \<Rightarrow> v)"

definition get_cards_per_level :: "string \<Rightarrow> cost_table" where
  "get_cards_per_level r =
     (if r = ''Common'' then
        [(2, 4), (3, 10), (4, 20), (5, 50), (6, 100), (7, 200), (8, 400), (9, 800),
         (10, 1000), (11, 5000)]
      else if r = ''Rare'' then
        [(2, 2), (3, 5), (4, 10), (5, 20), (6, 50), (7, 100), (8, 200), (9, 400),
         (10, 500), (11, 2000)]
      else if r = ''Epic'' then
        [(2, 1), (3, 2), (4, 5), (5, 10), (6, 20), (7, 50), (8, 100), (9, 200),
         (10, 250), (11, 800)]
      else if r = ''Legendary'' then
        [(2, 1), (3, 1), (4, 2), (5, 5), (6, 10), (7, 20), (8, 50), (9, 100),
         (10, 150), (11, 400)]
      else [])"

text \<open>
  The \<open>for level in range(current_level + 1, 12)\<close> loop of \<open>calculate_highest_level\<close>,
  with its two loop variables \<open>cards_owned\<close> and \<open>highest_level\<close>; the \<open>break\<close> is the
  branch that returns without looking at the remaining levels.
\<close>

fun walk_levels :: "cost_table \<Rightarrow> int list \<Rightarrow> int \<Rightarrow> int \<Rightarrow> int" where
  "walk_levels cards_per_level [] cards_owned highest_level = highest_level"
| "walk_levels cards_per_level (l # ls) cards_owned highest_level =
     (let cards_needed = dict_get cards_per_level l 0 in
      if cards_owned \<ge> cards_needed
      then walk_levels cards_per_level ls (cards_owned - cards_needed) l
      else highest_level)"

definition calculate_highest_level :: "item \<Rightarrow> int \<Rightarrow> int" where
  "calculate_highest_level it cards_owned =
     (if level it = 0 then 0
      else walk_levels (get_cards_per_level (rarity it)) [level it + 1..11]
             cards_owned (level it))"

record upgrade_info =
  cardsOwned :: int
  perLevel :: cost_table
  maxCards :: int
  cardsNeeded :: int
  totalCards :: int

record upgraded_item = item +
  highestLevel :: int
  upgradeInfo :: upgrade_info

definition update_item_upgrade_info :: "item \<Rightarrow> int \<Rightarrow> upgraded_item" where
  "update_item_upgrade_info it cards_owned =
     (let cards_per_level = get_cards_per_level (rarity it);
          max_cards = sum_list (map snd cards_per_level);
          highest_level = calculate_highest_level it cards_owned;
          used_cards = sum_list (map (\<lambda>l. dict_get cards_per_level l 0) [2..level it]);
          total_cards = cards_owned + used_cards;
          remaining_levels = [level it + 1..11];
          cards_needed = sum_list (map (\<lambda>l. dict_get cards_per_level l 0) remaining_levels)
      in \<lparr>rarity = rarity it, level = level it,
          highestLevel = highest_level,
          upgradeInfo = \<lparr>cardsOwned = cards_owned, perLevel = cards_per_level,
                         maxCards = max_cards, cardsNeeded = cards_needed,
                         totalCards = total_cards\<rparr>\<rparr>)"

section \<open>Raw level tables and the stat interpolator (src/data/raw_data_processor.py)\<close>

text \<open>
  Python floats are modelled by exact rationals: the model says what the arithmetic
  of the code computes, not how IEEE rounding perturbs it. The concrete inputs used
  below are chosen so that no conclusion depends on rounding.

  A parsed CSV row of the component sheet. A blank cell (\<open>pd.isna\<close>) is \<open>None\<close>;
  the \<open>Level\<close> cell is converted with \<open>int(...)\<close> without a guard, so a row reaching
  the entry construction has an integer level.
\<close>

record component_row =
  row_name :: string
  row_level :: int
  row_speed :: "rat option"
  row_cornering :: "rat option"
  row_power_unit :: "rat option"
  row_qualifying :: "rat option"
  row_pit_time :: "rat option"

record component_stats =
  stat_level :: int
  speed :: rat
  cornering :: rat
  power_unit :: rat
  qualifying :: rat
  pit_time :: rat
  total_value :: rat

text \<open>\<open>float(row[...]) if not pd.isna(row[...]) else 0.0\<close>\<close>

definition cell :: "rat option \<Rightarrow> rat" where
  "cell v = (case v of None \<Rightarrow> 0 | Some x \<Rightarrow> x)"

text \<open>The dict stored under \<open>component_data[name]["levels"][str(level)]\<close> for one row.\<close>

definition component_level_entry :: "component_row \<Rightarrow> component_stats" where
  "component_level_entry row =
     (let pit_time = cell (row_pit_time row);
          speed = cell (row_speed row);
          cornering = cell (row_cornering row);
          power_unit = cell (row_power_unit row);
          qualifying = cell (row_qualifying row)
      in \<lparr>stat_level = row_level row, speed = speed, cornering = cornering,
          power_unit = power_unit, qualifying = qualifying, pit_time = pit_time,
          total_value = speed + cornering + power_unit + qualifying + pit_time\<rparr>)"

text \<open>
  A level table is the \<open>levels\<close> dict of one item. Its JSON keys are \<open>str(level)\<close> of an
  integer level, and the reader converts them back with \<open>int(l)\<close>; the model keys the table
  by the integer itself. Assigning to an existing key overwrites the value in place, which
  is \<open>AList.update\<close>.
\<close>

type_synonym 'a level_table = "(int \<times> 'a) list"

definition component_levels :: "component_row list \<Rightarrow> component_stats level_table" where
  "component_levels component_df =
     fold (\<lambda>row levels. AList.update (row_level row) (component_level_entry row) levels)
       component_df []"

text \<open>\<open>df['Name'].unique()\<close>: the distinct names in order of first appearance.\<close>

definition unique :: "'a list \<Rightarrow> 'a list" where
  "unique xs = rev (remdups (rev xs))"

text \<open>
  \<open>process_component_raw_data\<close>, from the parsed rows to the document written to
  \<open>component_raw_data.json\<close>. Of each component only the \<open>levels\<close> table is kept: the
  metadata fields (type, rarity, series) are never read by \<open>get_component_stats\<close>.
\<close>

type_synonym component_raw_data = "(string \<times> component_stats level_table) list"

definition process_component_raw_data :: "component_row list \<Rightarrow> component_raw_data" where
  "process_component_raw_data df =
     map (\<lambda>name. (name, component_levels (filter (\<lambda>row. row_name row = name) df)))
       (unique (map row_name df))"

text \<open>
  The search loop over the ascending \<open>level_numbers\<close>: it keeps the last level below the
  request in \<open>lower_level\<close> and stops at the first level above it.
\<close>

fun closest_levels :: "int list \<Rightarrow> int \<Rightarrow> int option \<Rightarrow> int option \<times> int option" where
  "closest_levels [] requested lower_level = (lower_level, None)"
| "closest_levels (l # ls) requested lower_level =
     (if l < requested then closest_levels ls requested (Some l)
      else if l > requested then (lower_level, Some l)
      else closest_levels ls requested lower_level)"

text \<open>\<open>factor = (level - lower_level) / (higher_level - lower_level)\<close>, true division.\<close>

definition interpolation_factor :: "int \<Rightarrow> int \<Rightarrow> int \<Rightarrow> rat" where
  "interpolation_factor requested lower_level higher_level =
     of_int (requested - lower_level) / of_int (higher_level - lower_level)"

definition interpolate_component ::
  "int \<Rightarrow> int \<Rightarrow> int \<Rightarrow> component_stats \<Rightarrow> component_stats \<Rightarrow> component_stats" where
  "interpolate_component requested lower_level higher_level lower_stats higher_stats =
     (let factor = interpolation_factor requested lower_level higher_level;
          i_speed = speed lower_stats + factor * (speed higher_stats - speed lower_stats);
          i_cornering = cornering lower_stats
                          + factor * (cornering higher_stats - cornering lower_stats);
          i_power_unit = power_unit lower_stats
                          + factor * (power_unit higher_stats - power_unit lower_stats);
          i_qualifying = qualifying lower_stats
                          + factor * (qualifying higher_stats - qualifying lower_stats);
          i_pit_time = pit_time lower_stats
                          + factor * (pit_time higher_stats - pit_time lower_stats)
      in \<lparr>stat_level = requested, speed = i_speed, cornering = i_cornering,
          power_unit = i_power_unit, qualifying = i_qualifying, pit_time = i_pit_time,
          total_value = i_speed + i_cornering + i_power_unit + i_qualifying + i_pit_time\<rparr>)"

text \<open>
  \<open>get_component_stats\<close>. The first argument is the content of the raw-data file, \<open>None\<close>
  when it cannot be opened or parsed (the \<open>except\<close> branch, which returns \<open>None\<close>). A
  missing table entry for a level taken from the table's own keys would be a \<open>KeyError\<close>,
  caught by the same branch.
\<close>

definition get_component_stats ::
  "component_raw_data option \<Rightarrow> string \<Rightarrow> int \<Rightarrow> bool \<Rightarrow> component_stats option" where
  "get_component_stats file component_name requested interpolate =
     (case file of
        None \<Rightarrow> None
      | Some raw_data \<Rightarrow>
         (case map_of raw_data component_name of
            None \<Rightarrow> None
          | Some levels \<Rightarrow>
             (case map_of levels requested of
                Some stats \<Rightarrow> Some stats
              | None \<Rightarrow>
                 if interpolate then
                   (case closest_levels (sort (map fst levels)) requested None of
                      (Some lower_level, Some higher_level) \<Rightarrow>
                        (case (map_of levels lower_level, map_of levels higher_level) of
                           (Some lower_stats, Some higher_stats) \<Rightarrow>
                             Some (interpolate_component requested lower_level higher_level
                                     lower_stats higher_stats)
                         | _ \<Rightarrow> None)
                    | (Some lower_level, None) \<Rightarrow> map_of levels lower_level
                    | (None, Some higher_level) \<Rightarrow> map_of levels higher_level
                    | (None, None) \<Rightarrow> None)
                 else None)))"


definition py_round :: "rat \<Rightarrow> int" where
  "py_round x =
     (let f = \<lfloor>x\<rfloor>; d = x - of_int f
      in if d < 1 / 2 then f
         else if d > 1 / 2 then f + 1
         else if even f then f else f + 1)"




section \<open>Grand Prix eligibility (modules/grand_prix.py, modules/data_manager.py)\<close>

text \<open>
  A catalog document is what \<open>json.load\<close> returns for one file: a dict from a key
  (\<open>"drivers"\<close>, \<open>"brakes"\<close>, ...) to a list of item dicts. Of an item the lookups read the
  optional keys \<open>name\<close> and \<open>series\<close>. The state of the catalog is the function from a file
  path to its document, \<open>None\<close> where \<open>load_json_data\<close> fails and returns \<open>None\<close>.
\<close>

record catalog_item =
  item_name :: "string option"
  item_series :: "int option"

type_synonym document = "(string \<times> catalog_item list) list"

type_synonym catalog = "string \<Rightarrow> document option"

definition load_json_data :: "catalog \<Rightarrow> string \<Rightarrow> document option" where
  "load_json_data files file_path = files file_path"

definition DRIVERS_FILE :: string where
  "DRIVERS_FILE = ''drivers.json''"

definition COMPONENT_FILES :: "(string \<times> string) list" where
  "COMPONENT_FILES =
     [(''Brakes'', ''components_brakes.json''),
      (''Gearbox'', ''components_gearbox.json''),
      (''Rear Wing'', ''components_rearwing.json''),
      (''Front Wing'', ''components_frontwing.json''),
      (''Suspension'', ''components_suspension.json''),
      (''Engine'', ''components_engine.json'')]"

text \<open>The categories with their \<open>max_series\<close>; the description strings are not read.\<close>

definition GP_CATEGORIES :: "(string \<times> int) list" where
  "GP_CATEGORIES = [(''Challenger'', 6), (''Contender'', 9), (''Champion'', 12)]"

text \<open>\<open>str.lower()\<close> and \<open>str.replace(" ", "_")\<close> on ASCII text.\<close>

definition lower :: "string \<Rightarrow> string" where
  "lower s =
     map (\<lambda>c. case map_of (zip ''ABCDEFGHIJKLMNOPQRSTUVWXYZ'' ''abcdefghijklmnopqrstuvwxyz'') c of
                 None \<Rightarrow> c | Some d \<Rightarrow> d) s"

definition replace_space :: "string \<Rightarrow> string" where
  "replace_space s = map (\<lambda>c. if c = CHR '' '' then CHR ''_'' else c) s"

text \<open>
  The inner \<open>for\<close> loop of both lookups: the first item whose name equals the requested one
  ends the search with \<open>item.get("series", 0)\<close>; \<open>None\<close> is the loop running to its end.
\<close>

fun find_series :: "catalog_item list \<Rightarrow> string \<Rightarrow> int option" where
  "find_series [] wanted = None"
| "find_series (c # cs) wanted =
     (if item_name c = Some wanted
      then Some (case item_series c of None \<Rightarrow> 0 | Some s \<Rightarrow> s)
      else find_series cs wanted)"

text \<open>The outer loop of \<open>get_component_series\<close> over \<open>COMPONENT_FILES.items()\<close>.\<close>

fun component_series_loop :: "catalog \<Rightarrow> (string \<times> string) list \<Rightarrow> string \<Rightarrow> int" where
  "component_series_loop files [] component_name = 0"
| "component_series_loop files ((component_type, file_path) # rest) component_name =
     (case load_json_data files file_path of
        None \<Rightarrow> component_series_loop files rest component_name
      | Some components_data \<Rightarrow>
         if components_data = [] then component_series_loop files rest component_name
         else
           (let key = replace_space (lower component_type);
                components = dict_get components_data key []
            in case find_series components component_name of
                 Some s \<Rightarrow> s
               | None \<Rightarrow> component_series_loop files rest component_name))"

definition get_component_series :: "catalog \<Rightarrow> string \<Rightarrow> int" where
  "get_component_series files component_name =
     component_series_loop files COMPONENT_FILES component_name"

definition get_driver_series :: "catalog \<Rightarrow> string \<Rightarrow> int" where
  "get_driver_series files driver_name =
     (case load_json_data files DRIVERS_FILE of
        None \<Rightarrow> 0
      | Some drivers_data \<Rightarrow>
         if drivers_data = [] then 0
         else (case find_series (dict_get drivers_data ''drivers'' []) driver_name of
                 Some s \<Rightarrow> s
               | None \<Rightarrow> 0))"

text \<open>
  A loadout is a dict; the eligibility check reads \<open>drivers\<close> (a list of slot dicts) and
  \<open>components\<close> (a dict from component type to a slot dict), the series matcher reads
  \<open>calculations\<close>. Each key may be absent, which \<open>.get(key, default)\<close> replaces by the
  default. A slot is read through \<open>.get("name")\<close> alone.
\<close>

record slot =
  slot_name :: "string option"

record calculations =
  car_stats :: "(string \<times> rat) list option"
  driver_stats :: "(string \<times> rat) list option"
  calc_total_value :: "rat option"

record loadout =
  drivers :: "slot list option"
  components :: "(string \<times> slot) list option"
  calculations :: "calculations option"

text \<open>\<open>if slot.get("name"):\<close> holds for a present, non-empty name.\<close>

definition named :: "slot \<Rightarrow> string option" where
  "named sl = (case slot_name sl of None \<Rightarrow> None | Some n \<Rightarrow> if n = [] then None else Some n)"

text \<open>The two checking loops; \<open>return False\<close> leaves the loop at the first violation.\<close>

fun drivers_within :: "catalog \<Rightarrow> slot list \<Rightarrow> int \<Rightarrow> bool" where
  "drivers_within files [] max_series = True"
| "drivers_within files (driver # rest) max_series =
     (case named driver of
        None \<Rightarrow> drivers_within files rest max_series
      | Some n \<Rightarrow>
         (let driver_series = get_driver_series files n
          in if driver_series > max_series then False
             else drivers_within files rest max_series))"

fun components_within :: "catalog \<Rightarrow> (string \<times> slot) list \<Rightarrow> int \<Rightarrow> bool" where
  "components_within files [] max_series = True"
| "components_within files ((comp_type, component) # rest) max_series =
     (case named component of
        None \<Rightarrow> components_within files rest max_series
      | Some n \<Rightarrow>
         (let comp_series = get_component_series files n
          in if comp_series > max_series then False
             else components_within files rest max_series))"

definition is_loadout_valid_for_category :: "catalog \<Rightarrow> loadout \<Rightarrow> string \<Rightarrow> bool" where
  "is_loadout_valid_for_category files lo category =
     (case map_of GP_CATEGORIES category of
        None \<Rightarrow> False
      | Some max_series \<Rightarrow>
         if \<not> drivers_within files (case drivers lo of None \<Rightarrow> [] | Some ds \<Rightarrow> ds) max_series
         then False
         else if \<not> components_within files
                     (case components lo of None \<Rightarrow> [] | Some cs \<Rightarrow> cs) max_series
         then False
         else True)"

section \<open>Series matcher (modules/loadouts.py, src/core/series_data.py)\<close>

record series_info =
  series :: int
  track_stats :: string
  recommended_ts :: string

definition DEFAULT_SERIES_DATA :: "series_info list" where
  "DEFAULT_SERIES_DATA =
     [\<lparr>series = 1, track_stats = ''Defending'', recommended_ts = ''0 - 350''\<rparr>,
      \<lparr>series = 2, track_stats = ''Tyre Mgmt'', recommended_ts = ''250 - 450''\<rparr>,
      \<lparr>series = 3, track_stats = ''Speed'', recommended_ts = ''350 - 600''\<rparr>,
      \<lparr>series = 4, track_stats = ''Overtaking'', recommended_ts = ''450 - 700''\<rparr>,
      \<lparr>series = 5, track_stats = ''Cornering'', recommended_ts = ''550 - 800''\<rparr>,
      \<lparr>series = 6, track_stats = ''Race Start'', recommended_ts = ''650 - 900''\<rparr>,
      \<lparr>series = 7, track_stats = ''Power Unit'', recommended_ts = ''750 - 1000''\<rparr>,
      \<lparr>series = 8, track_stats = ''Defending'', recommended_ts = ''850 - 1100''\<rparr>,
      \<lparr>series = 9, track_stats = ''Speed'', recommended_ts = ''950 - 1200''\<rparr>,
      \<lparr>series = 10, track_stats = ''Rotating'', recommended_ts = ''1050 - 1300''\<rparr>,
      \<lparr>series = 11, track_stats = ''Rotating'', recommended_ts = ''1250 - 1550''\<rparr>,
      \<lparr>series = 12, track_stats = ''Rotating'', recommended_ts = ''1450 - 1799''\<rparr>,
      \<lparr>series = 0, track_stats = ''Custom'', recommended_ts = ''1000+''\<rparr>]"

definition TRACK_STATS_TO_ATTRIBUTES :: "(string \<times> string) list" where
  "TRACK_STATS_TO_ATTRIBUTES =
     [(''Defending'', ''defending''),
      (''Tyre Mgmt'', ''tyre_mgmt''),
      (''Speed'', ''speed''),
      (''Overtaking'', ''overtaking''),
      (''Cornering'', ''cornering''),
      (''Race Start'', ''race_start''),
      (''Power Unit'', ''power_unit''),
      (''Custom'', ''custom'')]"

text \<open>The rotating-series attributes used when \<open>rotating_series.json\<close> does not exist.\<close>

definition default_rotating_attributes :: "(string \<times> string) list" where
  "default_rotating_attributes =
     [(''10'', ''Speed''), (''11'', ''Cornering''), (''12'', ''Power Unit'')]"

text \<open>\<open>str(n)\<close> of an integer, in decimal.\<close>

fun str_nat :: "nat \<Rightarrow> string" where
  "str_nat n =
     (if n < 10 then [''0123456789'' ! n]
      else str_nat (n div 10) @ [''0123456789'' ! (n mod 10)])"

definition str :: "int \<Rightarrow> string" where
  "str i = (if i < 0 then CHR ''-'' # str_nat (nat (- i)) else str_nat (nat i))"

text \<open>
  \<open>s.split(" - ")\<close>: the pieces between the non-overlapping occurrences of the separator,
  scanned from the left. The first argument collects the current piece, reversed.
\<close>

fun split_dash :: "string \<Rightarrow> string \<Rightarrow> string list" where
  "split_dash piece [] = [rev piece]"
| "split_dash piece (c # cs) =
     (if take 3 (c # cs) = '' - '' then rev piece # split_dash [] (drop 3 (c # cs))
      else split_dash (c # piece) cs)"

text \<open>
  \<open>safe_int\<close> on a string: commas are removed and the rest goes through
  \<open>int(float(...))\<close>. Its \<open>except (ValueError, TypeError)\<close> turns unreadable text and
  \<open>nan\<close> into 0; the \<open>OverflowError\<close> that \<open>int\<close> raises on an infinite float is not
  caught and leaves the function.

  A character of a string stands for a code point below 256. \<open>float\<close> strips the
  whitespace of that range, checks and drops underscores between digits, and reads an
  optional sign followed by a decimal number with an optional exponent, or by \<open>inf\<close>,
  \<open>infinity\<close> or \<open>nan\<close> in any case. The decimal value is rounded to the nearest double,
  ties to even, and is infinite beyond the range of doubles.
\<close>

datatype error = OverflowError

definition is_space :: "char \<Rightarrow> bool" where
  "is_space c = (c \<in> set [CHR 0x09, CHR 0x0A, CHR 0x0B, CHR 0x0C, CHR 0x0D,
                             CHR 0x1C, CHR 0x1D, CHR 0x1E, CHR 0x1F, CHR '' '',
                             CHR 0x85, CHR 0xA0])"

definition strip :: "string \<Rightarrow> string" where
  "strip s = rev (dropWhile is_space (rev (dropWhile is_space s)))"

definition is_digit :: "char \<Rightarrow> bool" where
  "is_digit c = (c \<in> set ''0123456789'')"

definition digit_value :: "char \<Rightarrow> int" where
  "digit_value c = (case map_of (zip ''0123456789'' [0..9]) c of None \<Rightarrow> 0 | Some d \<Rightarrow> d)"

definition digits_value :: "string \<Rightarrow> int" where
  "digits_value ds = foldl (\<lambda>acc c. 10 * acc + digit_value c) 0 ds"

text \<open>
  The underscore pass: an underscore must follow a digit and precede a digit; the result
  is the text without underscores, \<open>None\<close> where the pass fails with \<open>ValueError\<close>. The first
  argument is the previous character.
\<close>

fun without_underscores :: "char \<Rightarrow> string \<Rightarrow> string option" where
  "without_underscores prev [] = (if prev = CHR ''_'' then None else Some [])"
| "without_underscores prev (c # cs) =
     (if c = CHR ''_''
      then (if is_digit prev then without_underscores c cs else None)
      else if prev = CHR ''_'' \<and> \<not> is_digit c then None
      else map_option ((#) c) (without_underscores c cs))"

text \<open>
  What the text denotes: nothing, a NaN, an infinity, or the finite decimal
  \<open>\<plusminus> m * 10 ^ k\<close> (\<open>Finite negative m k\<close>).
\<close>

datatype float_text = Invalid | NaN | Infinite | Finite bool int int

definition unsigned_part :: "string \<Rightarrow> string" where
  "unsigned_part s = (if take 1 s = ''-'' \<or> take 1 s = ''+'' then drop 1 s else s)"

definition parse_inf_or_nan :: "string \<Rightarrow> float_text" where
  "parse_inf_or_nan s =
     (let u = lower (unsigned_part s)
      in if u = ''inf'' \<or> u = ''infinity'' then Infinite
         else if u = ''nan'' then NaN
         else Invalid)"

text \<open>
  The number reader consumes a sign, digits, a point with digits, and an exponent only
  when the \<open>e\<close> is followed by an optionally signed digit; it needs a digit in the
  mantissa, and the whole text must be consumed. Text that does not start a number is
  tried as \<open>inf\<close> or \<open>nan\<close>.
\<close>

definition parse_float :: "string \<Rightarrow> float_text" where
  "parse_float s =
     (let negative = (take 1 s = ''-'');
          u = unsigned_part s;
          whole = takeWhile is_digit u;
          after_whole = dropWhile is_digit u;
          fraction = (if take 1 after_whole = ''.''
                      then takeWhile is_digit (drop 1 after_whole) else []);
          after_mantissa = (if take 1 after_whole = ''.''
                            then dropWhile is_digit (drop 1 after_whole) else after_whole);
          exp_text = unsigned_part (drop 1 after_mantissa);
          has_exponent = (take 1 (lower after_mantissa) = ''e''
                            \<and> takeWhile is_digit exp_text \<noteq> []);
          exponent = (if has_exponent
                      then (if take 1 (drop 1 after_mantissa) = ''-''
                            then - digits_value (takeWhile is_digit exp_text)
                            else digits_value (takeWhile is_digit exp_text))
                      else 0);
          rest = (if has_exponent then dropWhile is_digit exp_text else after_mantissa)
      in if whole = [] \<and> fraction = [] then parse_inf_or_nan s
         else if rest \<noteq> [] then Invalid
         else Finite negative (digits_value (whole @ fraction))
                (exponent - int (length fraction)))"

definition pow2 :: "int \<Rightarrow> rat" where
  "pow2 k = (if 0 \<le> k then 2 ^ nat k else 1 / 2 ^ nat (- k))"

function bit_length :: "int \<Rightarrow> int" where
  "bit_length n = (if n \<le> 0 then 0 else 1 + bit_length (n div 2))"
  by pat_completeness auto
termination
  by (relation "measure nat") auto

text \<open>The \<open>e\<close> with \<open>2 ^ e \<le> a / b < 2 ^ (e + 1)\<close>, for positive \<open>a\<close> and \<open>b\<close>.\<close>

definition binary_exponent :: "int \<Rightarrow> int \<Rightarrow> int" where
  "binary_exponent a b =
     (let e = bit_length a - bit_length b
      in if pow2 e \<le> of_int a / of_int b then e else e - 1)"

text \<open>
  The double nearest to \<open>m * 10 ^ k\<close> for \<open>m \<ge> 0\<close>: 53 significant bits, exponents from
  \<open>-1022\<close> (below it the spacing stays \<open>2 ^ -1074\<close>), ties to even; \<open>None\<close> when the rounded
  value reaches \<open>2 ^ 1024\<close>, where the float is infinite.
\<close>

definition to_double :: "int \<Rightarrow> int \<Rightarrow> rat option" where
  "to_double m k =
     (if m = 0 then Some 0
      else
        (let a = (if 0 \<le> k then m * 10 ^ nat k else m);
             b = (if 0 \<le> k then 1 else 10 ^ nat (- k));
             ulp = pow2 (max (binary_exponent a b) (- 1022) - 52);
             d = of_int (py_round (of_int a / of_int b / ulp)) * ulp
         in if pow2 1024 \<le> d then None else Some d))"

text \<open>\<open>int(float(v))\<close> inside the \<open>try\<close> of \<open>safe_int\<close>; \<open>int\<close> truncates towards zero.\<close>

definition int_of_float_text :: "string \<Rightarrow> error + int" where
  "int_of_float_text v =
     (case without_underscores (CHR 0x00) (strip v) of
        None \<Rightarrow> Inr 0
      | Some s \<Rightarrow>
         (case parse_float s of
            Invalid \<Rightarrow> Inr 0
          | NaN \<Rightarrow> Inr 0
          | Infinite \<Rightarrow> Inl OverflowError
          | Finite negative m k \<Rightarrow>
             (case to_double m k of
                None \<Rightarrow> Inl OverflowError
              | Some d \<Rightarrow> Inr (if negative then - \<lfloor>d\<rfloor> else \<lfloor>d\<rfloor>))))"

definition safe_int :: "string \<Rightarrow> error + int" where
  "safe_int v = int_of_float_text (filter (\<lambda>c. c \<noteq> CHR '','') v)"

text \<open>
  The three lines that read \<open>recommended_ts\<close>: \<open>ts_range\<close>, \<open>min_ts\<close> and \<open>max_ts\<close>, in
  that order, so that an error of the first bound is the one raised.
\<close>

definition parse_ts_range :: "string \<Rightarrow> error + (int \<times> int)" where
  "parse_ts_range text =
     (let ts_range = split_dash [] text
      in case (if length ts_range > 0 then safe_int (ts_range ! 0) else Inr 0) of
           Inl e \<Rightarrow> Inl e
         | Inr min_ts \<Rightarrow>
            (case (if length ts_range > 1 then safe_int (ts_range ! 1) else Inr 9999) of
               Inl e \<Rightarrow> Inl e
             | Inr max_ts \<Rightarrow> Inr (min_ts, max_ts)))"

text \<open>One entry of the ranking: the dict appended to \<open>series_scores\<close>.\<close>

record series_score =
  score_series :: int
  score_track_stats :: string
  score :: rat

text \<open>
  The track-stats label after the rotating override, and the focus attribute:
  \<open>TRACK_STATS_TO_ATTRIBUTES.get(track_stats, "speed")\<close>.
\<close>

definition resolve_track_stats :: "(string \<times> string) list \<Rightarrow> series_info \<Rightarrow> string" where
  "resolve_track_stats rotating_attributes si =
     (if track_stats si = ''Rotating'' \<and> rotating_attributes \<noteq> []
         \<and> str (series si) \<in> fst ` set rotating_attributes
      then (case map_of rotating_attributes (str (series si)) of
              Some a \<Rightarrow> a | None \<Rightarrow> track_stats si)
      else track_stats si)"

definition focus_attribute_of :: "string \<Rightarrow> string" where
  "focus_attribute_of label = dict_get TRACK_STATS_TO_ATTRIBUTES label ''speed''"

text \<open>
  The body of the loop over \<open>SERIES_DATA\<close> for one series with a non-zero number. Its
  arithmetic is \<open>series_entry_with_bounds\<close>, given the two bounds read from
  \<open>recommended_ts\<close>; the successive values of the variable \<open>score\<close> are \<open>score1\<close> ..
  \<open>score4\<close>. Reading the bounds is the only step of the body that can raise, and nothing
  before it has an effect, so \<open>score_series_entry\<close> reads them first: the entry is \<open>Inl\<close>
  the error when that raises.
\<close>

definition series_entry_with_bounds ::
  "(string \<times> string) list \<Rightarrow> loadout \<Rightarrow> series_info \<Rightarrow> int \<Rightarrow> int \<Rightarrow> series_score" where
  "series_entry_with_bounds rotating_attributes lo si min_ts max_ts =
     (let car = (case calculations lo of None \<Rightarrow> []
                 | Some c \<Rightarrow> (case car_stats c of None \<Rightarrow> [] | Some d \<Rightarrow> d));
          drv = (case calculations lo of None \<Rightarrow> []
                 | Some c \<Rightarrow> (case driver_stats c of None \<Rightarrow> [] | Some d \<Rightarrow> d));
          total = (case calculations lo of None \<Rightarrow> 0
                   | Some c \<Rightarrow> (case calc_total_value c of None \<Rightarrow> 0 | Some t \<Rightarrow> t));
          label = resolve_track_stats rotating_attributes si;
          focus_attribute = focus_attribute_of label;
          score1 =
            (if focus_attribute \<in> set [''speed'', ''cornering'', ''power_unit'', ''qualifying'']
             then dict_get car focus_attribute 0 * 2
             else if focus_attribute = ''pit_time''
             then (5 - dict_get car ''pit_time'' 5) * 20
             else 0);
          score2 =
            (if focus_attribute \<in> set [''overtaking'', ''defending'', ''qualifying'',
                                        ''race_start'', ''tyre_mgmt'']
             then score1 +
               (if focus_attribute = ''race_start''
                then dict_get drv ''race_start'' (dict_get drv ''raceStart'' 0)
                else if focus_attribute = ''tyre_mgmt''
                then dict_get drv ''tyre_mgmt'' (dict_get drv ''tyreMgmt'' 0)
                else dict_get drv focus_attribute 0)
             else score1);
          score3 = score2 + total * (1 / 10);
          score4 =
            (if total < of_int min_ts then score3 - (of_int min_ts - total) * (1 / 2)
             else if total > of_int max_ts then score3 - (total - of_int max_ts) * (1 / 5)
             else score3)
      in \<lparr>score_series = series si, score_track_stats = label, score = score4\<rparr>)"

definition score_series_entry ::
  "(string \<times> string) list \<Rightarrow> loadout \<Rightarrow> series_info \<Rightarrow> error + series_score" where
  "score_series_entry rotating_attributes lo si =
     (case parse_ts_range (recommended_ts si) of
        Inl e \<Rightarrow> Inl e
      | Inr (min_ts, max_ts) \<Rightarrow>
         Inr (series_entry_with_bounds rotating_attributes lo si min_ts max_ts))"

text \<open>
  The loop itself: \<open>continue\<close> on series 0, one appended entry otherwise; an error
  raised for a series ends the loop and the function.
\<close>

fun series_scores ::
  "(string \<times> string) list \<Rightarrow> loadout \<Rightarrow> series_info list \<Rightarrow> error + series_score list" where
  "series_scores rotating_attributes lo [] = Inr []"
| "series_scores rotating_attributes lo (si # rest) =
     (if series si = 0 then series_scores rotating_attributes lo rest
      else
        (case score_series_entry rotating_attributes lo si of
           Inl e \<Rightarrow> Inl e
         | Inr entry \<Rightarrow>
            (case series_scores rotating_attributes lo rest of
               Inl e \<Rightarrow> Inl e
             | Inr entries \<Rightarrow> Inr (entry # entries))))"

text \<open>
  \<open>find_matching_series_for_loadout\<close>. The rotating attributes and \<open>SERIES_DATA\<close> are
  module state read from files, here parameters. \<open>list.sort(key=..., reverse=True)\<close> is
  stable and keeps entries of equal score in their original order, as \<open>sort_key\<close> on the
  negated score does. The function returns \<open>series_scores[:5]\<close>.
\<close>

definition find_matching_series_for_loadout ::
  "(string \<times> string) list \<Rightarrow> series_info list \<Rightarrow> loadout \<Rightarrow> error + series_score list" where
  "find_matching_series_for_loadout rotating_attributes SERIES_DATA lo =
     (case series_scores rotating_attributes lo SERIES_DATA of
        Inl e \<Rightarrow> Inl e
      | Inr entries \<Rightarrow> Inr (take 5 (sort_key (\<lambda>x. - score x) entries)))"

section \<open>Predicates used in the statements\<close>

text \<open>The total of a component bundle as the code computes it: all five stats.\<close>

definition sums_all_five :: "component_stats \<Rightarrow> bool" where
  "sums_all_five b \<longleftrightarrow>
     total_value b = speed b + cornering b + power_unit b + qualifying b + pit_time b"

text \<open>
  Sample sheets for the concrete evaluations below: three rows of one component, the
  level-3 row with a blank \<open>Speed\<close> cell, and a driver table with samples at levels 1 and 4.
\<close>

definition wing_rows :: "component_row list" where
  "wing_rows =
     [\<lparr>row_name = ''Wing'', row_level = 1, row_speed = Some 10, row_cornering = Some 4,
       row_power_unit = Some 6, row_qualifying = Some 1, row_pit_time = Some 1\<rparr>,
      \<lparr>row_name = ''Wing'', row_level = 3, row_speed = None, row_cornering = Some 6,
       row_power_unit = Some 6, row_qualifying = Some 2, row_pit_time = Some 1\<rparr>,
      \<lparr>row_name = ''Wing'', row_level = 5, row_speed = Some 20, row_cornering = Some 8,
       row_power_unit = Some 6, row_qualifying = Some 2, row_pit_time = Some (1 / 2)\<rparr>]"


text \<open>
  The catalog documents the lookups consult, the names stored in a document, and the
  predicate "the name appears in a catalog document". \<open>drop_absent\<close> removes from a
  loadout the slots whose name appears in none.
\<close>

definition catalog_paths :: "string list" where
  "catalog_paths = DRIVERS_FILE # map snd COMPONENT_FILES"

definition names_in_document :: "document \<Rightarrow> string option list" where
  "names_in_document doc = concat (map (\<lambda>(key, items). map item_name items) doc)"

definition appears_in_catalog :: "catalog \<Rightarrow> string \<Rightarrow> bool" where
  "appears_in_catalog files n \<longleftrightarrow>
     (\<exists>p \<in> set catalog_paths.
        case load_json_data files p of
          None \<Rightarrow> False
        | Some doc \<Rightarrow> Some n \<in> set (names_in_document doc))"

definition slot_known :: "catalog \<Rightarrow> slot \<Rightarrow> bool" where
  "slot_known files sl = (case named sl of None \<Rightarrow> True | Some n \<Rightarrow> appears_in_catalog files n)"

definition drop_absent :: "catalog \<Rightarrow> loadout \<Rightarrow> loadout" where
  "drop_absent files lo =
     lo\<lparr>drivers := map_option (filter (slot_known files)) (drivers lo),
        components := map_option (filter (\<lambda>(comp_type, sl). slot_known files sl)) (components lo)\<rparr>"

text \<open>A small catalog state and a loadout over it, for the concrete evaluations.\<close>

definition sample_catalog :: catalog where
  "sample_catalog file_path =
     (if file_path = ''drivers.json'' then
        Some [(''drivers'',
               [\<lparr>item_name = Some ''Bottas'', item_series = Some 5\<rparr>,
                \<lparr>item_name = Some ''Verstappen'', item_series = Some 11\<rparr>,
                \<lparr>item_name = Some ''Rookie'', item_series = None\<rparr>])]
      else if file_path = ''components_brakes.json'' then
        Some [(''brakes'',
               [\<lparr>item_name = Some ''Pivot'', item_series = Some 1\<rparr>,
                \<lparr>item_name = Some ''The Stabiliser'', item_series = Some 8\<rparr>])]
      else if file_path = ''components_engine.json'' then
        Some [(''engine'', [\<lparr>item_name = Some ''Mach III'', item_series = Some 3\<rparr>])]
      else None)"

definition sample_loadout :: loadout where
  "sample_loadout =
     \<lparr>drivers = Some [\<lparr>slot_name = Some ''Bottas''\<rparr>, \<lparr>slot_name = Some ''Nobody''\<rparr>],
      components = Some [(''brakes'', \<lparr>slot_name = Some ''Pivot''\<rparr>),
                         (''engine'', \<lparr>slot_name = Some ''Mach III''\<rparr>),
                         (''gearbox'', \<lparr>slot_name = Some ''''\<rparr>),
                         (''rear_wing'', \<lparr>slot_name = None\<rparr>)],
      calculations = None\<rparr>"

text \<open>A loadout with aggregated speed 40 and total value 500, for the matcher.\<close>

definition scored_loadout :: loadout where
  "scored_loadout =
     \<lparr>drivers = None, components = None,
      calculations = Some \<lparr>car_stats = Some [(''speed'', 40)], driver_stats = None,
                           calc_total_value = Some 500\<rparr>\<rparr>"

text \<open>
  The side conditions of the ranking theorem. The numbers of a loadout are its total
  value and the values of its two stat dicts; \<open>range_readable\<close> says that reading the
  range of a series does not raise. Both bound the magnitudes by \<open>2 ^ 1000\<close>, where no
  conversion of a Python integer to a float can overflow during the scoring.
\<close>

definition within_doubles :: "rat \<Rightarrow> bool" where
  "within_doubles x \<longleftrightarrow> \<bar>x\<bar> \<le> 2 ^ 1000"

definition loadout_numbers :: "loadout \<Rightarrow> rat list" where
  "loadout_numbers lo =
     (case calculations lo of
        None \<Rightarrow> []
      | Some c \<Rightarrow>
         (case calc_total_value c of None \<Rightarrow> [] | Some t \<Rightarrow> [t])
         @ map snd (case car_stats c of None \<Rightarrow> [] | Some d \<Rightarrow> d)
         @ map snd (case driver_stats c of None \<Rightarrow> [] | Some d \<Rightarrow> d))"

definition range_readable :: "series_info \<Rightarrow> bool" where
  "range_readable si =
     (case parse_ts_range (recommended_ts si) of
        Inl e \<Rightarrow> False
      | Inr (min_ts, max_ts) \<Rightarrow> \<bar>min_ts\<bar> \<le> 2 ^ 1000 \<and> \<bar>max_ts\<bar> \<le> 2 ^ 1000)"

text \<open>
  A recogniser for the ranges written as two runs of digits around one \<open>" - "\<close>, each
  below \<open>2 ^ 53\<close>, with their values; and the ranking computed from such ranges.
\<close>

definition plain_number :: "string \<Rightarrow> bool" where
  "plain_number s \<longleftrightarrow> s \<noteq> [] \<and> list_all is_digit s \<and> digits_value s < 2 ^ 53"

definition plain_range :: "string \<Rightarrow> (int \<times> int) option" where
  "plain_range text =
     (case split_dash [] text of
        [a, b] \<Rightarrow> if plain_number a \<and> plain_number b
                  then Some (digits_value a, digits_value b) else None
      | _ \<Rightarrow> None)"

definition plain_ranking ::
  "(string \<times> string) list \<Rightarrow> series_info list \<Rightarrow> loadout \<Rightarrow> series_score list" where
  "plain_ranking rotating_attributes SERIES_DATA lo =
     take 5 (sort_key (\<lambda>x. - score x)
       (List.map_filter
          (\<lambda>si. map_option
                   (\<lambda>(min_ts, max_ts).
                      series_entry_with_bounds rotating_attributes lo si min_ts max_ts)
                   (plain_range (recommended_ts si)))
          (filter (\<lambda>s. series s \<noteq> 0) SERIES_DATA)))"

section \<open>Properties of the upgrade-progress calculator\<close>

text \<open>
  The walk over \<open>[h0 + 1..b]\<close> started with balance \<open>c\<close> ends at a level \<open>h\<close> such that every
  level up to \<open>h\<close> was paid from the running balance, and the balance left at \<open>h\<close> does not
  pay for \<open>h + 1\<close> unless the range is exhausted.
\<close>

lemma walk_levels_stops_at_first_shortfall:
  "walk_levels cpl [h0 + 1..b] c h0 = h \<Longrightarrow>
     h0 \<le> h \<and> h \<le> max h0 b \<and>
     (\<forall>j. h0 < j \<and> j \<le> h \<longrightarrow> sum_list (map (\<lambda>l. dict_get cpl l 0) [h0 + 1..j]) \<le> c) \<and>
     (h < b \<longrightarrow> c - sum_list (map (\<lambda>l. dict_get cpl l 0) [h0 + 1..h]) < dict_get cpl (h + 1) 0)"
proof (induction "nat (b - h0)" arbitrary: h0 c)
  case 0
  then show ?case by auto
next
  case (Suc n)
  then have lt: "h0 < b" by linarith
  then have unf: "[h0 + 1..b] = (h0 + 1) # [h0 + 1 + 1..b]" by (simp add: upto_rec1)
  show ?case
  proof (cases "c \<ge> dict_get cpl (h0 + 1) 0")
    case False
    with Suc.prems unf have "h = h0" by simp
    with False lt show ?thesis by auto
  next
    case True
    let ?c' = "c - dict_get cpl (h0 + 1) 0"
    from True Suc.prems unf have w: "walk_levels cpl [h0 + 1 + 1..b] ?c' (h0 + 1) = h" by simp
    have n: "n = nat (b - (h0 + 1))" using Suc.hyps(2) by linarith
    note IH = Suc.hyps(1)[OF n w]
    have split: "\<And>j. h0 < j \<Longrightarrow> sum_list (map (\<lambda>l. dict_get cpl l 0) [h0 + 1..j])
        = dict_get cpl (h0 + 1) 0 + sum_list (map (\<lambda>l. dict_get cpl l 0) [h0 + 1 + 1..j])"
      by (simp add: upto_rec1)
    show ?thesis
    proof (intro conjI allI impI)
      show "h0 \<le> h" using IH by linarith
      show "h \<le> max h0 b" using IH lt by linarith
    next
      fix j assume j: "h0 < j \<and> j \<le> h"
      show "sum_list (map (\<lambda>l. dict_get cpl l 0) [h0 + 1..j]) \<le> c"
      proof (cases "j = h0 + 1")
        case True
        then show ?thesis using \<open>c \<ge> dict_get cpl (h0 + 1) 0\<close> by simp
      next
        case False
        with j have "h0 + 1 < j \<and> j \<le> h" by linarith
        with IH have "sum_list (map (\<lambda>l. dict_get cpl l 0) [h0 + 1 + 1..j]) \<le> ?c'" by blast
        with split[of j] j show ?thesis by linarith
      qed
    next
      assume "h < b"
      with IH have "?c' - sum_list (map (\<lambda>l. dict_get cpl l 0) [h0 + 1 + 1..h])
                      < dict_get cpl (h + 1) 0" by blast
      moreover have "h0 < h" using IH by linarith
      ultimately show "c - sum_list (map (\<lambda>l. dict_get cpl l 0) [h0 + 1..h])
                         < dict_get cpl (h + 1) 0"
        using split[of h] by linarith
    qed
  qed
qed

lemma highestLevel_update:
  "highestLevel (update_item_upgrade_info it c) = calculate_highest_level it c"
  by (simp add: update_item_upgrade_info_def Let_def)

text \<open>
  C1. For the item \<open>{rarity: "Common", level: 8}\<close> with 784 cards the calculator yields
  \<open>highestLevel = 8\<close>, not 9: level 9 costs 800 cards in the Common table. \<open>totalCards\<close>
  is 784 plus the Common costs of levels 2..8. In general, for an owned item, the result
  \<open>h\<close> is reached by paying each level from \<open>level + 1\<close> to \<open>h\<close> out of the running balance,
  and the walk stops at \<open>h\<close> because the balance left there is smaller than the cost of
  \<open>h + 1\<close>, or because \<open>h\<close> is the last level of the range.
\<close>

theorem C1_highest_level_walk:
  "highestLevel (update_item_upgrade_info \<lparr>rarity = ''Common'', level = 8\<rparr> 784) = 8 \<and>
   totalCards (upgradeInfo (update_item_upgrade_info \<lparr>rarity = ''Common'', level = 8\<rparr> 784))
     = 784 + sum_list (map (\<lambda>l. dict_get (get_cards_per_level ''Common'') l 0) [2..8]) \<and>
   (\<forall>it c. level it \<noteq> 0 \<longrightarrow>
      (let cost = (\<lambda>l. dict_get (get_cards_per_level (rarity it)) l 0);
           h = highestLevel (update_item_upgrade_info it c)
       in level it \<le> h \<and> h \<le> max (level it) 11 \<and>
          (\<forall>j. level it < j \<and> j \<le> h \<longrightarrow> sum_list (map cost [level it + 1..j]) \<le> c) \<and>
          (h < 11 \<longrightarrow> c - sum_list (map cost [level it + 1..h]) < cost (h + 1))))"
proof (intro conjI allI impI)
  show "highestLevel (update_item_upgrade_info \<lparr>rarity = ''Common'', level = 8\<rparr> 784) = 8"
    by (simp add: update_item_upgrade_info_def calculate_highest_level_def
        get_cards_per_level_def dict_get_def Let_def)
  show "totalCards (upgradeInfo (update_item_upgrade_info \<lparr>rarity = ''Common'', level = 8\<rparr> 784))
     = 784 + sum_list (map (\<lambda>l. dict_get (get_cards_per_level ''Common'') l 0) [2..8])"
    by (simp add: update_item_upgrade_info_def Let_def)
next
  fix it :: item and c :: int
  assume owned: "level it \<noteq> 0"
  then have "walk_levels (get_cards_per_level (rarity it)) [level it + 1..11] c (level it)
               = calculate_highest_level it c"
    by (simp add: calculate_highest_level_def)
  from walk_levels_stops_at_first_shortfall[OF this]
  show "let cost = (\<lambda>l. dict_get (get_cards_per_level (rarity it)) l 0);
            h = highestLevel (update_item_upgrade_info it c)
        in level it \<le> h \<and> h \<le> max (level it) 11 \<and>
           (\<forall>j. level it < j \<and> j \<le> h \<longrightarrow> sum_list (map cost [level it + 1..j]) \<le> c) \<and>
           (h < 11 \<longrightarrow> c - sum_list (map cost [level it + 1..h]) < cost (h + 1))"
    by (simp add: highestLevel_update Let_def)
qed

theorem C1_highest_level_walk_witness:
  "level \<lparr>rarity = ''Rare'', level = 7\<rparr> \<noteq> 0 \<and>
   highestLevel (update_item_upgrade_info \<lparr>rarity = ''Rare'', level = 7\<rparr> 677) = 9 \<and>
   sum_list (map (\<lambda>l. dict_get (get_cards_per_level ''Rare'') l 0) [8..9]) \<le> 677 \<and>
   677 - sum_list (map (\<lambda>l. dict_get (get_cards_per_level ''Rare'') l 0) [8..9])
     < dict_get (get_cards_per_level ''Rare'') 10 0"
proof -
  have h: "highestLevel (update_item_upgrade_info \<lparr>rarity = ''Rare'', level = 7\<rparr> 677) = 9"
    by (simp add: update_item_upgrade_info_def calculate_highest_level_def
        get_cards_per_level_def dict_get_def Let_def)
  have owned: "level \<lparr>rarity = ''Rare'', level = 7\<rparr> \<noteq> 0" by simp
  note general = C1_highest_level_walk [THEN conjunct2, THEN conjunct2, rule_format,
      of "\<lparr>rarity = ''Rare'', level = 7\<rparr>" 677, OF owned]
  from general have paid:
    "\<forall>j. 7 < j \<and> j \<le> 9 \<longrightarrow>
       sum_list (map (\<lambda>l. dict_get (get_cards_per_level ''Rare'') l 0) [8..j]) \<le> 677"
    and short: "677 - sum_list (map (\<lambda>l. dict_get (get_cards_per_level ''Rare'') l 0) [8..9])
                  < dict_get (get_cards_per_level ''Rare'') 10 0"
    by (simp_all add: h Let_def)
  from paid have le: "sum_list (map (\<lambda>l. dict_get (get_cards_per_level ''Rare'') l 0) [8..9]) \<le> 677"
    by (rule allE [of _ 9]) simp
  show ?thesis by (rule conjI [OF owned conjI [OF h conjI [OF le short]]])
qed

lemma walk_levels_empty_table:
  "0 \<le> c \<Longrightarrow> walk_levels [] ls c h = (if ls = [] then h else last ls)"
  by (induction ls arbitrary: c h) (auto simp: dict_get_def)

lemma unknown_rarity_empty_table:
  "r \<notin> {''Common'', ''Rare'', ''Epic'', ''Legendary''} \<Longrightarrow> get_cards_per_level r = []"
  by (simp add: get_cards_per_level_def)

text \<open>
  C8. For an item whose rarity is none of Common, Rare, Epic, Legendary, with
  \<open>1 \<le> level \<le> 11\<close> and \<open>cardsOwned \<ge> 0\<close>, \<open>update_item_upgrade_info\<close> yields
  \<open>highestLevel = 11\<close>, \<open>maxCards = 0\<close> and \<open>cardsNeeded = 0\<close>.
\<close>

theorem C8_unknown_rarity_walks_to_top:
  assumes "rarity it \<notin> {''Common'', ''Rare'', ''Epic'', ''Legendary''}"
    and "1 \<le> level it" and "level it \<le> 11" and "0 \<le> cards_owned"
  shows "highestLevel (update_item_upgrade_info it cards_owned) = 11 \<and>
         maxCards (upgradeInfo (update_item_upgrade_info it cards_owned)) = 0 \<and>
         cardsNeeded (upgradeInfo (update_item_upgrade_info it cards_owned)) = 0"
proof -
  have t: "get_cards_per_level (rarity it) = []"
    using assms(1) by (rule unknown_rarity_empty_table)
  have h: "calculate_highest_level it cards_owned = 11"
  proof (cases "level it = 11")
    case True
    then show ?thesis by (simp add: calculate_highest_level_def t)
  next
    case False
    with assms have "level it + 1 \<le> 11" by linarith
    then have "[level it + 1..11] \<noteq> [] \<and> last [level it + 1..11] = 11"
      by (simp add: upto_rec2)
    with assms show ?thesis
      by (simp add: calculate_highest_level_def t walk_levels_empty_table)
  qed
  show ?thesis using h by (simp add: update_item_upgrade_info_def Let_def t dict_get_def)
qed

theorem C8_unknown_rarity_walks_to_top_witness:
  "''Mythic'' \<notin> {''Common'', ''Rare'', ''Epic'', ''Legendary''} \<and>
   highestLevel (update_item_upgrade_info \<lparr>rarity = ''Mythic'', level = 3\<rparr> 0) = 11 \<and>
   maxCards (upgradeInfo (update_item_upgrade_info \<lparr>rarity = ''Mythic'', level = 3\<rparr> 0)) = 0 \<and>
   cardsNeeded (upgradeInfo (update_item_upgrade_info \<lparr>rarity = ''Mythic'', level = 3\<rparr> 0)) = 0"
  using C8_unknown_rarity_walks_to_top [of "\<lparr>rarity = ''Mythic'', level = 3\<rparr>" 0] by simp

section \<open>Properties of the level tables and the interpolator\<close>

lemma component_level_entry_total: "sums_all_five (component_level_entry row)"
  by (simp add: sums_all_five_def component_level_entry_def Let_def)

lemma interpolate_component_total:
  "sums_all_five (interpolate_component requested lo hi ls hs)"
  by (simp add: sums_all_five_def interpolate_component_def Let_def)

lemma fold_update_entries:
  "(\<And>k v. map_of acc k = Some v \<Longrightarrow> sums_all_five v) \<Longrightarrow>
   map_of (fold (\<lambda>row levels. AList.update (row_level row) (component_level_entry row) levels)
             rows acc) k = Some v
   \<Longrightarrow> sums_all_five v"
proof (induction rows arbitrary: acc)
  case Nil
  then show ?case by simp
next
  case (Cons row rows)
  show ?case
  proof (rule Cons.IH[of "AList.update (row_level row) (component_level_entry row) acc"])
    fix k' v'
    assume "map_of (AList.update (row_level row) (component_level_entry row) acc) k' = Some v'"
    then show "sums_all_five v'"
      using Cons.prems(1) component_level_entry_total
      by (auto simp: update_conv' split: if_splits)
  next
    show "map_of (fold (\<lambda>row levels.
                     AList.update (row_level row) (component_level_entry row) levels) rows
            (AList.update (row_level row) (component_level_entry row) acc)) k = Some v"
      using Cons.prems(2) by simp
  qed
qed

lemma component_levels_entries:
  "map_of (component_levels rows) k = Some v \<Longrightarrow> sums_all_five v"
  unfolding component_levels_def by (rule fold_update_entries[of "[]"]) auto

lemma process_tables:
  "map_of (process_component_raw_data df) name = Some levels \<Longrightarrow>
   \<exists>rows. levels = component_levels rows"
  by (auto simp: process_component_raw_data_def dest!: map_of_SomeD)

lemma get_component_stats_total:
  assumes "get_component_stats (Some (process_component_raw_data df)) name requested interp
             = Some b"
  shows "sums_all_five b"
proof -
  from assms obtain levels where l: "map_of (process_component_raw_data df) name = Some levels"
    by (auto simp: get_component_stats_def split: option.splits)
  then obtain rows where r: "levels = component_levels rows" using process_tables by blast
  have stored: "\<And>k v. map_of levels k = Some v \<Longrightarrow> sums_all_five v"
    unfolding r by (rule component_levels_entries)
  from assms l show ?thesis
    by (auto simp: get_component_stats_def interpolate_component_total
        split: option.splits if_splits prod.splits dest: stored)
qed

text \<open>
  C2, as the claim states it, fails: for the level-8 row of "The Stabiliser" used by
  tests/test_raw_data.py (speed 8, cornering 8, power unit 7, qualifying 9, pit time 0.77)
  the stored total is 32.77, the sum of all five stats, not 32.
\<close>

theorem C2_total_value_counterexample:
  "get_component_stats (Some (process_component_raw_data
     [\<lparr>row_name = ''The Stabiliser'', row_level = 8, row_speed = Some 8,
       row_cornering = Some 8, row_power_unit = Some 7, row_qualifying = Some 9,
       row_pit_time = Some (77 / 100)\<rparr>])) ''The Stabiliser'' 8 True
   = Some \<lparr>stat_level = 8, speed = 8, cornering = 8, power_unit = 7, qualifying = 9,
            pit_time = 77 / 100, total_value = 3277 / 100\<rparr>
   \<and> (3277 / 100 :: rat) \<noteq> 8 + 8 + 7 + 9"
  by (simp add: get_component_stats_def process_component_raw_data_def unique_def
      component_levels_def component_level_entry_def cell_def Let_def)

text \<open>
  C2, amended. In every level table written by \<open>process_component_raw_data\<close>, and in every
  bundle \<open>get_component_stats\<close> returns from such tables (stored or interpolated),
  \<open>total_value\<close> is the sum of all five stats: speed, cornering, power unit, qualifying
  and pit time.
\<close>

theorem C2_total_value_includes_pit_time:
  "(\<forall>name levels l e.
      map_of (process_component_raw_data df) name = Some levels \<longrightarrow>
      map_of levels l = Some e \<longrightarrow>
      total_value e = speed e + cornering e + power_unit e + qualifying e + pit_time e) \<and>
   (\<forall>name requested interp b.
      get_component_stats (Some (process_component_raw_data df)) name requested interp = Some b \<longrightarrow>
      total_value b = speed b + cornering b + power_unit b + qualifying b + pit_time b)"
proof (intro conjI allI impI)
  fix name levels l e
  assume "map_of (process_component_raw_data df) name = Some levels"
    and e: "map_of levels l = Some e"
  then obtain rows where "levels = component_levels rows" using process_tables by blast
  with e have "sums_all_five e" by (auto dest: component_levels_entries)
  then show "total_value e = speed e + cornering e + power_unit e + qualifying e + pit_time e"
    by (simp add: sums_all_five_def)
next
  fix name requested interp b
  assume "get_component_stats (Some (process_component_raw_data df)) name requested interp
            = Some b"
  then have "sums_all_five b" by (rule get_component_stats_total)
  then show "total_value b = speed b + cornering b + power_unit b + qualifying b + pit_time b"
    by (simp add: sums_all_five_def)
qed

theorem C2_total_value_includes_pit_time_witness:
  "get_component_stats (Some (process_component_raw_data wing_rows)) ''Wing'' 2 True
     = Some \<lparr>stat_level = 2, speed = 5, cornering = 5, power_unit = 6, qualifying = 3 / 2,
              pit_time = 1, total_value = 37 / 2\<rparr> \<and>
   (37 / 2 :: rat) = 5 + 5 + 6 + 3 / 2 + 1"
proof -
  have g: "get_component_stats (Some (process_component_raw_data wing_rows)) ''Wing'' 2 True
     = Some \<lparr>stat_level = 2, speed = 5, cornering = 5, power_unit = 6, qualifying = 3 / 2,
              pit_time = 1, total_value = 37 / 2\<rparr>"
    by (simp add: get_component_stats_def process_component_raw_data_def unique_def
        wing_rows_def component_levels_def component_level_entry_def cell_def Let_def
        interpolate_component_def interpolation_factor_def)
  from C2_total_value_includes_pit_time [THEN conjunct2, rule_format, OF g]
  have "(37 / 2 :: rat) = 5 + 5 + 6 + 3 / 2 + 1" by simp
  with g show ?thesis by (rule conjI)
qed











section \<open>Properties of the Grand Prix eligibility check\<close>

lemma drivers_within_mono:
  "drivers_within files ds m \<Longrightarrow> m \<le> m' \<Longrightarrow> drivers_within files ds m'"
  by (induction ds) (auto simp: Let_def split: option.splits if_splits)

lemma components_within_mono:
  "components_within files cs m \<Longrightarrow> m \<le> m' \<Longrightarrow> components_within files cs m'"
  by (induction cs) (auto simp: Let_def split: option.splits if_splits)

text \<open>
  C6. If a loadout is valid for a category whose ceiling is \<open>n\<close>, it is valid for every
  category whose ceiling is at least \<open>n\<close>, for the same catalog state.
\<close>

theorem C6_eligibility_monotone:
  assumes "is_loadout_valid_for_category files lo c1"
    and "map_of GP_CATEGORIES c1 = Some n" and "map_of GP_CATEGORIES c2 = Some m"
    and "n \<le> m"
  shows "is_loadout_valid_for_category files lo c2"
  using assms
  by (auto simp: is_loadout_valid_for_category_def split: if_splits
      dest: drivers_within_mono components_within_mono)

lemma find_series_absent:
  "Some n \<notin> set (map item_name items) \<Longrightarrow> find_series items n = None"
  by (induction items) auto

lemma dict_get_names:
  assumes "Some n \<notin> set (names_in_document doc)"
  shows "Some n \<notin> set (map item_name (dict_get doc key []))"
proof (cases "map_of doc key")
  case None
  then show ?thesis by (simp add: dict_get_def)
next
  case (Some items)
  then have "(key, items) \<in> set doc" by (rule map_of_SomeD)
  then have "set (map item_name items) \<subseteq> set (names_in_document doc)"
    by (force simp: names_in_document_def)
  with assms Some show ?thesis by (auto simp: dict_get_def)
qed

lemma absent_driver_series:
  assumes "\<not> appears_in_catalog files n"
  shows "get_driver_series files n = 0"
proof (cases "load_json_data files DRIVERS_FILE")
  case None
  then show ?thesis by (simp add: get_driver_series_def)
next
  case (Some doc)
  with assms have "Some n \<notin> set (names_in_document doc)"
    by (auto simp: appears_in_catalog_def catalog_paths_def)
  then have "find_series (dict_get doc ''drivers'' []) n = None"
    by (intro find_series_absent dict_get_names)
  with Some show ?thesis by (simp add: get_driver_series_def)
qed

lemma component_series_loop_absent:
  "(\<And>p doc. p \<in> snd ` set cfs \<Longrightarrow> load_json_data files p = Some doc \<Longrightarrow>
        Some n \<notin> set (names_in_document doc)) \<Longrightarrow>
   component_series_loop files cfs n = 0"
proof (induction cfs)
  case Nil
  then show ?case by simp
next
  case (Cons cf cfs)
  obtain component_type file_path where cf: "cf = (component_type, file_path)" by (cases cf)
  have rest: "component_series_loop files cfs n = 0"
  proof (rule Cons.IH)
    fix p doc
    assume "p \<in> snd ` set cfs" and "load_json_data files p = Some doc"
    then show "Some n \<notin> set (names_in_document doc)"
      using Cons.prems [of p doc] by simp
  qed
  show ?case
  proof (cases "load_json_data files file_path")
    case None
    with rest cf show ?thesis by simp
  next
    case (Some doc)
    then have "Some n \<notin> set (names_in_document doc)"
      using Cons.prems [of file_path doc] cf by simp
    then have "find_series (dict_get doc (replace_space (lower component_type)) []) n = None"
      by (intro find_series_absent dict_get_names)
    with Some rest cf show ?thesis by (simp add: Let_def)
  qed
qed

lemma absent_component_series:
  assumes "\<not> appears_in_catalog files n"
  shows "get_component_series files n = 0"
  unfolding get_component_series_def
proof (rule component_series_loop_absent)
  fix p doc
  assume "p \<in> snd ` set COMPONENT_FILES" and "load_json_data files p = Some doc"
  with assms show "Some n \<notin> set (names_in_document doc)"
    by (auto simp: appears_in_catalog_def catalog_paths_def)
qed

lemma drivers_within_drop_absent:
  "0 \<le> m \<Longrightarrow> drivers_within files (filter (slot_known files) ds) m = drivers_within files ds m"
  by (induction ds)
     (auto simp: Let_def slot_known_def absent_driver_series split: option.splits if_splits)

lemma components_within_drop_absent:
  "0 \<le> m \<Longrightarrow>
   components_within files (filter (\<lambda>(comp_type, sl). slot_known files sl) cs) m
     = components_within files cs m"
  by (induction cs)
     (auto simp: Let_def slot_known_def absent_component_series split: option.splits if_splits)

lemma category_ceiling_nonneg: "map_of GP_CATEGORIES c = Some m \<Longrightarrow> 0 \<le> m"
  by (auto simp: GP_CATEGORIES_def split: if_splits)

lemma valid_drop_absent:
  "is_loadout_valid_for_category files (drop_absent files lo) c = is_loadout_valid_for_category files lo c"
proof (cases "map_of GP_CATEGORIES c")
  case None
  then show ?thesis by (simp add: is_loadout_valid_for_category_def)
next
  case (Some m)
  then have m: "0 \<le> m" by (rule category_ceiling_nonneg)
  show ?thesis
    using Some drivers_within_drop_absent[OF m] components_within_drop_absent[OF m]
    by (cases "drivers lo"; cases "components lo")
       (simp_all add: is_loadout_valid_for_category_def drop_absent_def)
qed


theorem C6_eligibility_monotone_witness:
  "is_loadout_valid_for_category sample_catalog sample_loadout ''Challenger'' \<and>
   map_of GP_CATEGORIES ''Challenger'' = Some 6 \<and>
   map_of GP_CATEGORIES ''Champion'' = Some 12 \<and> (6 :: int) \<le> 12 \<and>
   is_loadout_valid_for_category sample_catalog sample_loadout ''Champion''"
proof -
  have v: "is_loadout_valid_for_category sample_catalog sample_loadout ''Challenger''"
    by code_simp
  have c1: "map_of GP_CATEGORIES ''Challenger'' = Some 6"
    and c2: "map_of GP_CATEGORIES ''Champion'' = Some 12"
    by (simp_all add: GP_CATEGORIES_def)
  have le: "(6 :: int) \<le> 12" by simp
  from C6_eligibility_monotone [OF v c1 c2 le] v c1 c2 le show ?thesis by simp
qed

text \<open>
  C9. A name that appears in no catalog document gets series 0 from \<open>get_driver_series\<close>
  and from \<open>get_component_series\<close>. Every defined category has a ceiling of at least 0,
  so for a defined category the verdict of \<open>is_loadout_valid_for_category\<close> is the same
  with and without the slots whose names are absent: such a slot never makes it false.
\<close>

theorem C9_absent_names_default_to_series_0:
  "(\<not> appears_in_catalog files n \<longrightarrow>
      get_driver_series files n = 0 \<and> get_component_series files n = 0) \<and>
   (\<forall>c m. map_of GP_CATEGORIES c = Some m \<longrightarrow> 0 \<le> m) \<and>
   (\<forall>c lo. map_of GP_CATEGORIES c \<noteq> None \<longrightarrow>
      is_loadout_valid_for_category files lo c
        = is_loadout_valid_for_category files (drop_absent files lo) c)"
  by (simp add: absent_driver_series absent_component_series category_ceiling_nonneg
      valid_drop_absent)

theorem C9_absent_names_default_to_series_0_witness:
  "\<not> appears_in_catalog sample_catalog ''Nobody'' \<and>
   get_driver_series sample_catalog ''Nobody'' = 0 \<and>
   get_component_series sample_catalog ''Nobody'' = 0 \<and>
   map_of GP_CATEGORIES ''Challenger'' = Some 6 \<and> (0 :: int) \<le> 6 \<and>
   is_loadout_valid_for_category sample_catalog sample_loadout ''Challenger''
     = is_loadout_valid_for_category sample_catalog
         (drop_absent sample_catalog sample_loadout) ''Challenger''"
proof -
  have a: "\<not> appears_in_catalog sample_catalog ''Nobody''"
    by (simp add: appears_in_catalog_def catalog_paths_def DRIVERS_FILE_def
        COMPONENT_FILES_def load_json_data_def sample_catalog_def names_in_document_def)
  have c: "map_of GP_CATEGORIES ''Challenger'' = Some 6" by (simp add: GP_CATEGORIES_def)
  then have d: "map_of GP_CATEGORIES ''Challenger'' \<noteq> None" by simp
  note inst = C9_absent_names_default_to_series_0 [of sample_catalog "''Nobody''"]
  from inst a have s: "get_driver_series sample_catalog ''Nobody'' = 0 \<and>
      get_component_series sample_catalog ''Nobody'' = 0" by blast
  from inst c have m: "(0 :: int) \<le> 6" by blast
  from inst d have e: "is_loadout_valid_for_category sample_catalog sample_loadout ''Challenger''
     = is_loadout_valid_for_category sample_catalog
         (drop_absent sample_catalog sample_loadout) ''Challenger''" by blast
  from a s c m e show ?thesis by blast
qed

text \<open>
  C4, as the claim states it, fails: for the rarity "Mythic" the calculator returns an
  ordinary item built on the empty cost table, and for the name "Nobody", which is in no
  document of the sample catalog, both lookups return 0, the value \<open>get_driver_series\<close>
  also returns for "Rookie", a catalogued driver stored without a series.
\<close>

theorem C4_silent_defaults_counterexample:
  "''Mythic'' \<notin> {''Common'', ''Rare'', ''Epic'', ''Legendary''} \<and>
   update_item_upgrade_info \<lparr>rarity = ''Mythic'', level = 1\<rparr> 5
     = \<lparr>rarity = ''Mythic'', level = 1, highestLevel = 11,
        upgradeInfo = \<lparr>cardsOwned = 5, perLevel = [], maxCards = 0, cardsNeeded = 0,
                       totalCards = 5\<rparr>\<rparr> \<and>
   \<not> appears_in_catalog sample_catalog ''Nobody'' \<and>
   get_driver_series sample_catalog ''Nobody'' = 0 \<and>
   get_driver_series sample_catalog ''Rookie'' = 0 \<and>
   get_component_series sample_catalog ''Nobody'' = 0"
  by (simp add: update_item_upgrade_info_def calculate_highest_level_def
      get_cards_per_level_def dict_get_def Let_def
      appears_in_catalog_def catalog_paths_def DRIVERS_FILE_def
      COMPONENT_FILES_def load_json_data_def sample_catalog_def names_in_document_def
      get_driver_series_def get_component_series_def lower_def replace_space_def)

text \<open>
  C4, amended. For every rarity outside Common, Rare, Epic, Legendary the cost-table
  lookup returns the empty table, on which \<open>update_item_upgrade_info\<close> computes
  \<open>maxCards = 0\<close> and \<open>cardsNeeded = 0\<close>; for every name that appears in no catalog
  document the series lookups return the default 0. Neither signals a failure.
\<close>

theorem C4_defaults_for_unknown_inputs:
  "(r \<notin> {''Common'', ''Rare'', ''Epic'', ''Legendary''} \<longrightarrow>
      get_cards_per_level r = [] \<and>
      maxCards (upgradeInfo (update_item_upgrade_info \<lparr>rarity = r, level = l\<rparr> c)) = 0 \<and>
      cardsNeeded (upgradeInfo (update_item_upgrade_info \<lparr>rarity = r, level = l\<rparr> c)) = 0) \<and>
   (\<not> appears_in_catalog files n \<longrightarrow>
      get_driver_series files n = 0 \<and> get_component_series files n = 0)"
  by (simp add: unknown_rarity_empty_table update_item_upgrade_info_def Let_def dict_get_def
      absent_driver_series absent_component_series)

theorem C4_defaults_for_unknown_inputs_witness:
  "''Mythic'' \<notin> {''Common'', ''Rare'', ''Epic'', ''Legendary''} \<and>
   get_cards_per_level ''Mythic'' = [] \<and>
   maxCards (upgradeInfo (update_item_upgrade_info \<lparr>rarity = ''Mythic'', level = 4\<rparr> 7)) = 0 \<and>
   \<not> appears_in_catalog sample_catalog ''Ghost'' \<and>
   get_driver_series sample_catalog ''Ghost'' = 0 \<and>
   get_component_series sample_catalog ''Ghost'' = 0"
proof -
  have r: "''Mythic'' \<notin> {''Common'', ''Rare'', ''Epic'', ''Legendary''}" by simp
  have a: "\<not> appears_in_catalog sample_catalog ''Ghost''"
    by (simp add: appears_in_catalog_def catalog_paths_def DRIVERS_FILE_def
        COMPONENT_FILES_def load_json_data_def sample_catalog_def names_in_document_def)
  note inst = C4_defaults_for_unknown_inputs [of "''Mythic''" 4 7 sample_catalog "''Ghost''"]
  from inst r a show ?thesis by blast
qed

section \<open>Properties of the range reader\<close>

text \<open>
  A positive integer below \<open>2 ^ 53\<close> is a double, so its decimal text is converted
  exactly; hence \<open>safe_int\<close> returns the value of a run of digits, and a range written
  as two such runs is read as the pair of their values.
\<close>

lemma bit_length_nonneg: "0 \<le> bit_length n"
proof (induction n rule: bit_length.induct)
  case (1 n)
  show ?case
  proof (cases "n \<le> 0")
    case True
    then show ?thesis by (subst bit_length.simps) simp
  next
    case False
    with 1 have "0 \<le> bit_length (n div 2)" by simp
    with False show ?thesis by (subst bit_length.simps) simp
  qed
qed

lemma bit_length_pos: "0 < n \<Longrightarrow> 1 \<le> bit_length n"
  using bit_length_nonneg [of "n div 2"] by (subst bit_length.simps) simp

lemma bit_length_le: "n < 2 ^ k \<Longrightarrow> bit_length n \<le> int k"
proof (induction k arbitrary: n)
  case 0
  then have "n \<le> 0" by simp
  then show ?case by (subst bit_length.simps) simp
next
  case (Suc k)
  show ?case
  proof (cases "n \<le> 0")
    case True
    then show ?thesis by (subst bit_length.simps) simp
  next
    case False
    from Suc.prems have "n div 2 < 2 ^ k" by simp
    then have "bit_length (n div 2) \<le> int k" by (rule Suc.IH)
    with False show ?thesis by (subst bit_length.simps) simp
  qed
qed

lemma py_round_of_int: "py_round (of_int z) = z"
  by (simp add: py_round_def Let_def)

lemma binary_exponent_small:
  assumes "0 < m" and "m < 2 ^ 53"
  shows "0 \<le> binary_exponent m 1 \<and> binary_exponent m 1 \<le> 52"
proof -
  have one: "bit_length 1 = 1" by (subst bit_length.simps, subst bit_length.simps) simp
  have lo: "1 \<le> bit_length m" using assms(1) by (rule bit_length_pos)
  have hi: "bit_length m \<le> 53" using bit_length_le [OF assms(2)] by simp
  show ?thesis
  proof (cases "bit_length m = 1")
    case True
    with assms(1) show ?thesis by (simp add: binary_exponent_def one pow2_def Let_def)
  next
    case False
    with lo hi show ?thesis by (auto simp: binary_exponent_def one Let_def)
  qed
qed

lemma to_double_small:
  assumes "0 < m" and "m < 2 ^ 53"
  shows "to_double m 0 = Some (of_int m)"
proof -
  define e where "e = binary_exponent m 1"
  from binary_exponent_small [OF assms] have e: "0 \<le> e" "e \<le> 52" by (simp_all add: e_def)
  define n where "n = nat (52 - e)"
  have ulp: "pow2 (max e (- 1022) - 52) = 1 / 2 ^ n"
  proof (cases "e = 52")
    case True
    then show ?thesis by (simp add: pow2_def n_def)
  next
    case False
    with e have "e - 52 < 0" by simp
    with e show ?thesis by (simp add: pow2_def n_def max_def)
  qed
  have q: "of_int m / (1 / 2 ^ n :: rat) = of_int (m * 2 ^ n)" by simp
  have "of_int (py_round (of_int m / (1 / 2 ^ n))) * (1 / 2 ^ n :: rat) = of_int m"
    by (simp only: q py_round_of_int) simp
  then have d: "of_int (py_round (of_int m / pow2 (max (binary_exponent m 1) (- 1022) - 52)))
                  * pow2 (max (binary_exponent m 1) (- 1022) - 52) = (of_int m :: rat)"
    by (simp only: ulp [unfolded e_def])
  have "(of_int m :: rat) < 2 ^ 53" using assms(2) by (metis of_int_less_numeral_power_cancel_iff)
  also have "(2 :: rat) ^ 53 \<le> 2 ^ 1024" by (rule power_increasing) simp_all
  finally have fin: "\<not> pow2 1024 \<le> (of_int m :: rat)" by (simp add: pow2_def)
  from assms(1) have nz: "m \<noteq> 0" by simp
  show ?thesis
    using nz fin d by (simp add: to_double_def Let_def)
qed


lemma digits_value_nonneg_aux:
  "0 \<le> acc \<Longrightarrow> 0 \<le> foldl (\<lambda>acc c. 10 * acc + digit_value c) acc ds"
proof (induction ds arbitrary: acc)
  case Nil
  then show ?case by simp
next
  case (Cons c ds)
  have "0 \<le> digit_value c"
    by (auto simp: digit_value_def split: option.splits dest!: map_of_SomeD set_zip_rightD)
  with Cons.prems have "0 \<le> 10 * acc + digit_value c" by simp
  then show ?case using Cons.IH by simp
qed

lemma digits_value_nonneg: "0 \<le> digits_value ds"
  unfolding digits_value_def by (rule digits_value_nonneg_aux) simp

lemma digit_not_special:
  "is_digit c \<Longrightarrow> c \<noteq> CHR '','' \<and> c \<noteq> CHR ''_'' \<and> c \<noteq> CHR ''-'' \<and> c \<noteq> CHR ''+''
                   \<and> \<not> is_space c"
  by (auto simp: is_digit_def is_space_def)

lemma digits_no_commas: "list_all is_digit s \<Longrightarrow> filter (\<lambda>c. c \<noteq> CHR '','') s = s"
  by (induction s) (auto dest: digit_not_special)

lemma dropWhile_first: "s \<noteq> [] \<Longrightarrow> \<not> P (hd s) \<Longrightarrow> dropWhile P s = s"
  by (cases s) auto

lemma digits_strip: "list_all is_digit s \<Longrightarrow> strip s = s"
proof (cases "s = []")
  case True
  then show ?thesis by (simp add: strip_def)
next
  case False
  assume d: "list_all is_digit s"
  then have all: "\<forall>c \<in> set s. \<not> is_space c" by (auto simp: list_all_iff dest: digit_not_special)
  with False have "\<not> is_space (hd s)" by simp
  with False have one: "dropWhile is_space s = s" by (rule dropWhile_first)
  from False have r: "rev s \<noteq> []" by simp
  from all False have "\<not> is_space (hd (rev s))" by (simp add: hd_rev)
  with r have "dropWhile is_space (rev s) = rev s" by (rule dropWhile_first)
  with one show ?thesis by (simp add: strip_def)
qed

lemma digits_without_underscores:
  "list_all is_digit s \<Longrightarrow> prev \<noteq> CHR ''_'' \<Longrightarrow> without_underscores prev s = Some s"
  by (induction s arbitrary: prev) (auto dest: digit_not_special)

lemma digits_parse_float:
  assumes "list_all is_digit s" and "s \<noteq> []"
  shows "parse_float s = Finite False (digits_value s) 0"
proof -
  from assms obtain c cs where s: "s = c # cs" by (cases s) auto
  with assms(1) have c: "is_digit c" by simp
  then have sign: "take 1 s \<noteq> ''-''" "take 1 s \<noteq> ''+''"
    using digit_not_special [OF c] by (simp_all add: s)
  then have u: "unsigned_part s = s" by (simp add: unsigned_part_def)
  have all: "\<forall>x \<in> set s. is_digit x" using assms(1) by (simp add: list_all_iff)
  then have t: "takeWhile is_digit s = s" and dw: "dropWhile is_digit s = []"
    by simp_all
  show ?thesis
    using assms(2) sign by (simp add: parse_float_def u t dw Let_def lower_def unsigned_part_def)
qed

lemma safe_int_digits:
  assumes "s \<noteq> []" and "list_all is_digit s" and "digits_value s < 2 ^ 53"
  shows "safe_int s = Inr (digits_value s)"
proof -
  have w: "without_underscores (CHR 0x00) (strip (filter (\<lambda>c. c \<noteq> CHR '','') s)) = Some s"
    using assms(2) by (simp add: digits_no_commas digits_strip digits_without_underscores)
  have p: "parse_float s = Finite False (digits_value s) 0"
    using assms(2,1) by (rule digits_parse_float)
  have "to_double (digits_value s) 0 = Some (of_int (digits_value s))"
  proof (cases "digits_value s = 0")
    case True
    then show ?thesis by (simp add: to_double_def)
  next
    case False
    with digits_value_nonneg [of s] have "0 < digits_value s" by simp
    then show ?thesis using assms(3) by (rule to_double_small)
  qed
  with w p show ?thesis by (simp add: safe_int_def int_of_float_text_def)
qed

lemma safe_int_plain: "plain_number s \<Longrightarrow> safe_int s = Inr (digits_value s)"
  by (simp add: plain_number_def safe_int_digits)

lemma plain_range_parse:
  assumes "plain_range text = Some (x, y)"
  shows "parse_ts_range text = Inr (x, y)"
proof -
  from assms obtain a b where sp: "split_dash [] text = [a, b]"
    and pl: "plain_number a" "plain_number b" and v: "x = digits_value a" "y = digits_value b"
    by (auto simp: plain_range_def split: list.splits if_splits)
  then show ?thesis by (simp add: parse_ts_range_def safe_int_plain)
qed

lemma plain_range_readable:
  assumes "plain_range (recommended_ts si) = Some (x, y)"
  shows "range_readable si"
proof -
  from assms obtain a b where pl: "plain_number a" "plain_number b"
    and v: "x = digits_value a" "y = digits_value b"
    by (auto simp: plain_range_def split: list.splits if_splits)
  have small: "\<And>z :: int. 0 \<le> z \<Longrightarrow> z < 2 ^ 53 \<Longrightarrow> \<bar>z\<bar> \<le> 2 ^ 1000"
  proof -
    fix z :: int assume "0 \<le> z" "z < 2 ^ 53"
    moreover have "(2 :: int) ^ 53 \<le> 2 ^ 1000" by (rule power_increasing) simp_all
    ultimately show "\<bar>z\<bar> \<le> 2 ^ 1000" by linarith
  qed
  have la: "digits_value a < 2 ^ 53" and lb: "digits_value b < 2 ^ 53"
    using pl by (simp_all add: plain_number_def)
  have "\<bar>x\<bar> \<le> 2 ^ 1000"
    unfolding v by (rule small [OF digits_value_nonneg la])
  moreover have "\<bar>y\<bar> \<le> 2 ^ 1000"
    unfolding v by (rule small [OF digits_value_nonneg lb])
  ultimately have "\<bar>x\<bar> \<le> 2 ^ 1000" "\<bar>y\<bar> \<le> 2 ^ 1000" .
  with plain_range_parse [OF assms] show ?thesis by (simp add: range_readable_def)
qed

section \<open>Properties of the series matcher\<close>

lemma entry_of_readable:
  "range_readable si \<Longrightarrow> \<exists>e. score_series_entry ra lo si = Inr e"
  by (auto simp: range_readable_def score_series_entry_def Let_def split: sum.splits)

lemma series_scores_all:
  "list_all range_readable (filter (\<lambda>s. series s \<noteq> 0) SD) \<Longrightarrow>
   \<exists>es. series_scores ra lo SD = Inr es \<and>
        map Inr es = map (score_series_entry ra lo) (filter (\<lambda>s. series s \<noteq> 0) SD)"
proof (induction SD)
  case Nil
  then show ?case by simp
next
  case (Cons si SD)
  then obtain es where es: "series_scores ra lo SD = Inr es"
    "map Inr es = map (score_series_entry ra lo) (filter (\<lambda>s. series s \<noteq> 0) SD)"
    by (auto split: if_splits)
  show ?case
  proof (cases "series si = 0")
    case True
    with es show ?thesis by simp
  next
    case False
    with Cons.prems have "range_readable si" by simp
    then obtain e where "score_series_entry ra lo si = Inr e"
      using entry_of_readable by blast
    with False es show ?thesis by simp
  qed
qed

text \<open>
  The error path of the model: an infinite bound makes \<open>safe_int\<close> raise, and a series
  whose range raises makes the matcher raise.
\<close>

lemma safe_int_inf: "safe_int ''inf'' = Inl OverflowError"
  by code_simp

lemma series_scores_raises:
  "\<exists>si \<in> set SD. series si \<noteq> 0 \<and> score_series_entry ra lo si = Inl OverflowError \<Longrightarrow>
   find_matching_series_for_loadout ra SD lo = Inl OverflowError"
proof -
  have e: "\<And>x :: error. x = OverflowError" by (case_tac x) simp
  assume "\<exists>si \<in> set SD. series si \<noteq> 0 \<and> score_series_entry ra lo si = Inl OverflowError"
  then have "series_scores ra lo SD = Inl OverflowError"
  proof (induction SD)
    case Nil
    then show ?case by simp
  next
    case (Cons a SD)
    then show ?case
      by (cases "score_series_entry ra lo a"; cases "series_scores ra lo SD")
         (auto simp: e split: if_splits)
  qed
  then show ?thesis by (simp add: find_matching_series_for_loadout_def)
qed

lemma ranking_descending:
  "sorted_wrt (\<lambda>x y. score x \<ge> score y) (sort_key (\<lambda>x. - score x) xs)"
proof -
  have "sorted (map (\<lambda>x. - score x) (sort_key (\<lambda>x. - score x) xs))" by (rule sorted_sort_key)
  then show ?thesis by (simp add: sorted_map)
qed

lemma entry_on_plain_range:
  "plain_range (recommended_ts si) = Some (x, y) \<Longrightarrow>
   score_series_entry ra lo si = Inr (series_entry_with_bounds ra lo si x y)"
  by (simp add: score_series_entry_def plain_range_parse)

lemma series_scores_on_plain_ranges:
  "list_all (\<lambda>si. plain_range (recommended_ts si) \<noteq> None) (filter (\<lambda>s. series s \<noteq> 0) SD) \<Longrightarrow>
   series_scores ra lo SD
     = Inr (List.map_filter
              (\<lambda>si. map_option (\<lambda>(min_ts, max_ts). series_entry_with_bounds ra lo si min_ts max_ts)
                       (plain_range (recommended_ts si)))
              (filter (\<lambda>s. series s \<noteq> 0) SD))"
proof (induction SD)
  case Nil
  then show ?case by (simp add: List.map_filter_simps)
next
  case (Cons si SD)
  show ?case
  proof (cases "series si = 0")
    case True
    with Cons show ?thesis by simp
  next
    case False
    with Cons.prems obtain x y where p: "plain_range (recommended_ts si) = Some (x, y)"
      by auto
    from False Cons.prems have "list_all (\<lambda>si. plain_range (recommended_ts si) \<noteq> None)
         (filter (\<lambda>s. series s \<noteq> 0) SD)" by simp
    from Cons.IH [OF this] False p show ?thesis
      by (simp add: entry_on_plain_range List.map_filter_simps)
  qed
qed

lemma matcher_on_plain_ranges:
  "list_all (\<lambda>si. plain_range (recommended_ts si) \<noteq> None) (filter (\<lambda>s. series s \<noteq> 0) SD) \<Longrightarrow>
   find_matching_series_for_loadout ra SD lo = Inr (plain_ranking ra SD lo)"
  by (simp add: find_matching_series_for_loadout_def plain_ranking_def
      series_scores_on_plain_ranges)

lemma plain_ranges_readable:
  "list_all (\<lambda>si. plain_range (recommended_ts si) \<noteq> None) sis \<Longrightarrow> list_all range_readable sis"
  by (induction sis) (auto intro: plain_range_readable)

lemma default_ranges_plain:
  "list_all (\<lambda>si. plain_range (recommended_ts si) \<noteq> None)
     (filter (\<lambda>s. series s \<noteq> 0) DEFAULT_SERIES_DATA)"
  by code_simp

lemma default_ranking:
  "plain_ranking default_rotating_attributes DEFAULT_SERIES_DATA scored_loadout
     = [\<lparr>score_series = 3, score_track_stats = ''Speed'', score = 130\<rparr>,
        \<lparr>score_series = 4, score_track_stats = ''Overtaking'', score = 50\<rparr>,
        \<lparr>score_series = 2, score_track_stats = ''Tyre Mgmt'', score = 40\<rparr>,
        \<lparr>score_series = 5, score_track_stats = ''Cornering'', score = 25\<rparr>,
        \<lparr>score_series = 1, score_track_stats = ''Defending'', score = 20\<rparr>]"
  by code_simp

text \<open>
  C3, amended. For a loadout whose numbers are within \<open>2 ^ 1000\<close> and a catalog in which
  the range of every non-zero series is read without an error, to bounds within
  \<open>2 ^ 1000\<close>, the matcher returns; it scores every catalog series except number 0, ranks
  the entries descending by score and returns the first five of the ranking: its result,
  followed by the entries it leaves out, is a descending arrangement of one entry per
  non-zero series; the result has \<open>min 5 n\<close> entries for \<open>n\<close> non-zero series, and nothing
  is left out when \<open>n \<le> 5\<close>.
\<close>

theorem C3_top_five_of_ranking:
  assumes "list_all within_doubles (loadout_numbers lo)"
    and "list_all range_readable (filter (\<lambda>s. series s \<noteq> 0) SD)"
  shows "\<exists>result rest.
     find_matching_series_for_loadout ra SD lo = Inr result \<and>
     mset (map Inr (result @ rest))
       = mset (map (score_series_entry ra lo) (filter (\<lambda>s. series s \<noteq> 0) SD)) \<and>
     sorted_wrt (\<lambda>x y. score x \<ge> score y) (result @ rest) \<and>
     length result = min 5 (length (filter (\<lambda>s. series s \<noteq> 0) SD)) \<and>
     (length (filter (\<lambda>s. series s \<noteq> 0) SD) \<le> 5 \<longrightarrow> rest = [])"
proof -
  from series_scores_all[OF assms(2)] obtain es where
    es: "series_scores ra lo SD = Inr es"
    and all: "map Inr es = map (score_series_entry ra lo) (filter (\<lambda>s. series s \<noteq> 0) SD)"
    by blast
  let ?ranking = "sort_key (\<lambda>x. - score x) es"
  have len: "length es = length (filter (\<lambda>s. series s \<noteq> 0) SD)"
    using arg_cong[OF all, of length] by simp
  have r: "find_matching_series_for_loadout ra SD lo = Inr (take 5 ?ranking)"
    by (simp add: find_matching_series_for_loadout_def es)
  have "mset (map Inr (take 5 ?ranking @ drop 5 ?ranking))
          = mset (map Inr es :: (error + series_score) list)"
    by simp
  then have m: "mset (map Inr (take 5 ?ranking @ drop 5 ?ranking))
        = mset (map (score_series_entry ra lo) (filter (\<lambda>s. series s \<noteq> 0) SD))"
    by (simp only: all)
  have s: "sorted_wrt (\<lambda>x y. score x \<ge> score y) (take 5 ?ranking @ drop 5 ?ranking)"
    using ranking_descending[of es] by simp
  have l: "length (take 5 ?ranking) = min 5 (length (filter (\<lambda>s. series s \<noteq> 0) SD))"
    by (simp add: len min.commute)
  have d: "length (filter (\<lambda>s. series s \<noteq> 0) SD) \<le> 5 \<longrightarrow> drop 5 ?ranking = []"
    by (simp add: len)
  from r m s l d show ?thesis by blast
qed


text \<open>
  C3, as the claim states it, fails: on \<open>DEFAULT_SERIES_DATA\<close>, with twelve non-zero
  series, the matcher returns five entries, and series 6 has none.
\<close>

theorem C3_truncation_counterexample:
  "find_matching_series_for_loadout default_rotating_attributes DEFAULT_SERIES_DATA scored_loadout
     = Inr [\<lparr>score_series = 3, score_track_stats = ''Speed'', score = 130\<rparr>,
            \<lparr>score_series = 4, score_track_stats = ''Overtaking'', score = 50\<rparr>,
            \<lparr>score_series = 2, score_track_stats = ''Tyre Mgmt'', score = 40\<rparr>,
            \<lparr>score_series = 5, score_track_stats = ''Cornering'', score = 25\<rparr>,
            \<lparr>score_series = 1, score_track_stats = ''Defending'', score = 20\<rparr>] \<and>
   \<lparr>series = 6, track_stats = ''Race Start'', recommended_ts = ''650 - 900''\<rparr>
     \<in> set DEFAULT_SERIES_DATA \<and>
   (6 :: int) \<noteq> 0 \<and> (6 :: int) \<notin> set [3, 4, 2, 5, 1]"
proof -
  have "find_matching_series_for_loadout default_rotating_attributes DEFAULT_SERIES_DATA
          scored_loadout
        = Inr (plain_ranking default_rotating_attributes DEFAULT_SERIES_DATA scored_loadout)"
    using default_ranges_plain by (rule matcher_on_plain_ranges)
  moreover have "\<lparr>series = 6, track_stats = ''Race Start'', recommended_ts = ''650 - 900''\<rparr>
     \<in> set DEFAULT_SERIES_DATA"
    by (simp add: DEFAULT_SERIES_DATA_def)
  ultimately show ?thesis by (simp add: default_ranking)
qed

theorem C3_top_five_of_ranking_witness:
  "list_all within_doubles (loadout_numbers scored_loadout) \<and>
   list_all range_readable (filter (\<lambda>s. series s \<noteq> 0) DEFAULT_SERIES_DATA) \<and>
   find_matching_series_for_loadout default_rotating_attributes DEFAULT_SERIES_DATA scored_loadout
     = Inr [\<lparr>score_series = 3, score_track_stats = ''Speed'', score = 130\<rparr>,
            \<lparr>score_series = 4, score_track_stats = ''Overtaking'', score = 50\<rparr>,
            \<lparr>score_series = 2, score_track_stats = ''Tyre Mgmt'', score = 40\<rparr>,
            \<lparr>score_series = 5, score_track_stats = ''Cornering'', score = 25\<rparr>,
            \<lparr>score_series = 1, score_track_stats = ''Defending'', score = 20\<rparr>] \<and>
   length (filter (\<lambda>s. series s \<noteq> 0) DEFAULT_SERIES_DATA) = 12 \<and>
   length [\<lparr>score_series = 3, score_track_stats = ''Speed'', score = 130\<rparr>,
            \<lparr>score_series = 4, score_track_stats = ''Overtaking'', score = 50\<rparr>,
            \<lparr>score_series = 2, score_track_stats = ''Tyre Mgmt'', score = 40\<rparr>,
            \<lparr>score_series = 5, score_track_stats = ''Cornering'', score = 25\<rparr>,
            \<lparr>score_series = 1, score_track_stats = ''Defending'', score = 20\<rparr>]
     = min 5 (12 :: nat) \<and>
   sorted_wrt (\<lambda>x y. score x \<ge> score y)
     [\<lparr>score_series = 3, score_track_stats = ''Speed'', score = 130\<rparr>,
      \<lparr>score_series = 4, score_track_stats = ''Overtaking'', score = 50\<rparr>,
      \<lparr>score_series = 2, score_track_stats = ''Tyre Mgmt'', score = 40\<rparr>,
      \<lparr>score_series = 5, score_track_stats = ''Cornering'', score = 25\<rparr>,
      \<lparr>score_series = 1, score_track_stats = ''Defending'', score = 20\<rparr>]"
proof -
  let ?top = "[\<lparr>score_series = 3, score_track_stats = ''Speed'', score = 130\<rparr>,
      \<lparr>score_series = 4, score_track_stats = ''Overtaking'', score = 50\<rparr>,
      \<lparr>score_series = 2, score_track_stats = ''Tyre Mgmt'', score = 40\<rparr>,
      \<lparr>score_series = 5, score_track_stats = ''Cornering'', score = 25\<rparr>,
      \<lparr>score_series = 1, score_track_stats = ''Defending'', score = 20\<rparr>]"
  have h1: "list_all within_doubles (loadout_numbers scored_loadout)"
    by (simp add: loadout_numbers_def scored_loadout_def within_doubles_def)
  have h2: "list_all range_readable (filter (\<lambda>s. series s \<noteq> 0) DEFAULT_SERIES_DATA)"
    using default_ranges_plain by (rule plain_ranges_readable)
  have n: "length (filter (\<lambda>s. series s \<noteq> 0) DEFAULT_SERIES_DATA) = 12"
    by (simp add: DEFAULT_SERIES_DATA_def)
  have g: "find_matching_series_for_loadout default_rotating_attributes DEFAULT_SERIES_DATA
             scored_loadout = Inr ?top"
    by (simp add: matcher_on_plain_ranges [OF default_ranges_plain] default_ranking)
  from C3_top_five_of_ranking [OF h1 h2, of default_rotating_attributes]
  obtain result rest where
    r: "find_matching_series_for_loadout default_rotating_attributes DEFAULT_SERIES_DATA
          scored_loadout = Inr result"
    and s: "sorted_wrt (\<lambda>x y. score x \<ge> score y) (result @ rest)"
    and l: "length result = min 5 (length (filter (\<lambda>s. series s \<noteq> 0) DEFAULT_SERIES_DATA))"
    by blast
  from r g have res: "result = ?top" by simp
  from s have s': "sorted_wrt (\<lambda>x y. score x \<ge> score y) result"
    by (simp add: sorted_wrt_append)
  from l n have l': "length result = min 5 (12 :: nat)" by simp
  show ?thesis
    using h1 h2 g n l' s' unfolding res by (intro conjI)
qed

lemma range_350_600: "parse_ts_range ''350 - 600'' = Inr (350, 600)"
proof -
  have "plain_range ''350 - 600'' = Some (350, 600)" by code_simp
  then show ?thesis by (rule plain_range_parse)
qed

text \<open>
  C5. For the catalog entry \<open>{series: 3, track_stats: "Speed", recommended_ts: "350 - 600"}\<close>
  and a loadout with \<open>total_value = 500\<close> and \<open>car_stats.speed = 40\<close>, the matcher
  computes the score \<open>40 * 2 + 500 * 0.1 = 130\<close>, and run on that entry it returns the
  entry with score 130.
\<close>

theorem C5_speed_series_score:
  assumes "calculations lo = Some c"
    and "calc_total_value c = Some 500"
    and "car_stats c = Some cs" and "map_of cs ''speed'' = Some 40"
  shows "score_series_entry ra lo
            \<lparr>series = 3, track_stats = ''Speed'', recommended_ts = ''350 - 600''\<rparr>
           = Inr \<lparr>score_series = 3, score_track_stats = ''Speed'',
                  score = 40 * 2 + 500 * (1 / 10)\<rparr> \<and>
         find_matching_series_for_loadout ra
            [\<lparr>series = 3, track_stats = ''Speed'', recommended_ts = ''350 - 600''\<rparr>] lo
           = Inr [\<lparr>score_series = 3, score_track_stats = ''Speed'', score = 130\<rparr>]"
proof -
  have e: "score_series_entry ra lo
            \<lparr>series = 3, track_stats = ''Speed'', recommended_ts = ''350 - 600''\<rparr>
           = Inr \<lparr>score_series = 3, score_track_stats = ''Speed'', score = 130\<rparr>"
    using assms
    by (simp add: score_series_entry_def series_entry_with_bounds_def
        resolve_track_stats_def focus_attribute_of_def
        TRACK_STATS_TO_ATTRIBUTES_def dict_get_def range_350_600 Let_def)
  then show ?thesis by (simp add: find_matching_series_for_loadout_def)
qed

theorem C5_speed_series_score_witness:
  "calculations scored_loadout
     = Some \<lparr>car_stats = Some [(''speed'', 40)], driver_stats = None,
             calc_total_value = Some 500\<rparr> \<and>
   map_of [(''speed'', 40 :: rat)] ''speed'' = Some 40 \<and>
   score_series_entry default_rotating_attributes scored_loadout
            \<lparr>series = 3, track_stats = ''Speed'', recommended_ts = ''350 - 600''\<rparr>
     = Inr \<lparr>score_series = 3, score_track_stats = ''Speed'', score = 130\<rparr> \<and>
   find_matching_series_for_loadout default_rotating_attributes
      [\<lparr>series = 3, track_stats = ''Speed'', recommended_ts = ''350 - 600''\<rparr>] scored_loadout
     = Inr [\<lparr>score_series = 3, score_track_stats = ''Speed'', score = 130\<rparr>]"
proof -
  let ?c = "\<lparr>car_stats = Some [(''speed'', 40)], driver_stats = None,
             calc_total_value = Some 500\<rparr>"
  have h1: "calculations scored_loadout = Some ?c" by (simp add: scored_loadout_def)
  have h2: "calc_total_value ?c = Some 500" and h3: "car_stats ?c = Some [(''speed'', 40)]"
    by simp_all
  have h4: "map_of [(''speed'', 40 :: rat)] ''speed'' = Some 40" by simp
  from C5_speed_series_score [OF h1 h2 h3 h4, of default_rotating_attributes] h1 h4
  show ?thesis by simp
qed

lemma rotating_not_mapped: "map_of TRACK_STATS_TO_ATTRIBUTES ''Rotating'' = None"
  by (simp add: TRACK_STATS_TO_ATTRIBUTES_def)

lemma speed_mapped: "focus_attribute_of ''Speed'' = ''speed''"
  by (simp add: focus_attribute_of_def TRACK_STATS_TO_ATTRIBUTES_def dict_get_def)

lemma resolve_speed: "resolve_track_stats ra (si\<lparr>track_stats := ''Speed''\<rparr>) = ''Speed''"
  by (simp add: resolve_track_stats_def)

text \<open>
  C10. If the track-stats label of a series, after the rotating override, has no entry
  in \<open>TRACK_STATS_TO_ATTRIBUTES\<close>, the focus attribute is \<open>"speed"\<close> and scoring the
  series gives what scoring it with the label \<open>"Speed"\<close> gives: the same score, or the
  same error when its range cannot be read. A \<open>"Rotating"\<close> series with no override for
  its number is such a series. (\<open>find_best_loadouts_for_series\<close> resolves the label and
  the focus with the same two lines.)
\<close>

theorem C10_unmapped_label_scores_speed:
  "(map_of TRACK_STATS_TO_ATTRIBUTES (resolve_track_stats ra si) = None \<longrightarrow>
      focus_attribute_of (resolve_track_stats ra si) = ''speed'' \<and>
      map_sum id score (score_series_entry ra lo si)
        = map_sum id score (score_series_entry ra lo (si\<lparr>track_stats := ''Speed''\<rparr>))) \<and>
   (track_stats si = ''Rotating'' \<and> map_of ra (str (series si)) = None \<longrightarrow>
      map_of TRACK_STATS_TO_ATTRIBUTES (resolve_track_stats ra si) = None)"
proof (intro conjI impI)
  assume n: "map_of TRACK_STATS_TO_ATTRIBUTES (resolve_track_stats ra si) = None"
  then show f: "focus_attribute_of (resolve_track_stats ra si) = ''speed''"
    by (simp add: focus_attribute_of_def dict_get_def)
  show "map_sum id score (score_series_entry ra lo si)
        = map_sum id score (score_series_entry ra lo (si\<lparr>track_stats := ''Speed''\<rparr>))"
    by (simp add: score_series_entry_def series_entry_with_bounds_def f resolve_speed
        speed_mapped Let_def split: sum.splits prod.splits)
next
  assume "track_stats si = ''Rotating'' \<and> map_of ra (str (series si)) = None"
  then have "resolve_track_stats ra si = ''Rotating''"
    by (auto simp: resolve_track_stats_def)
  then show "map_of TRACK_STATS_TO_ATTRIBUTES (resolve_track_stats ra si) = None"
    by (simp add: rotating_not_mapped)
qed

theorem C10_unmapped_label_scores_speed_witness:
  "track_stats \<lparr>series = 10, track_stats = ''Rotating'', recommended_ts = ''1050 - 1300''\<rparr>
     = ''Rotating'' \<and>
   map_of ([] :: (string \<times> string) list) (str 10) = None \<and>
   map_of TRACK_STATS_TO_ATTRIBUTES (resolve_track_stats []
      \<lparr>series = 10, track_stats = ''Rotating'', recommended_ts = ''1050 - 1300''\<rparr>) = None \<and>
   focus_attribute_of (resolve_track_stats []
      \<lparr>series = 10, track_stats = ''Rotating'', recommended_ts = ''1050 - 1300''\<rparr>) = ''speed'' \<and>
   map_sum id score (score_series_entry [] scored_loadout
      \<lparr>series = 10, track_stats = ''Rotating'', recommended_ts = ''1050 - 1300''\<rparr>)
     = map_sum id score (score_series_entry [] scored_loadout
      \<lparr>series = 10, track_stats = ''Speed'', recommended_ts = ''1050 - 1300''\<rparr>) \<and>
   map_sum id score (score_series_entry [] scored_loadout
      \<lparr>series = 10, track_stats = ''Speed'', recommended_ts = ''1050 - 1300''\<rparr>)
     = Inr (- 145)"
proof -
  let ?si = "\<lparr>series = 10, track_stats = ''Rotating'', recommended_ts = ''1050 - 1300''\<rparr>"
  note inst = C10_unmapped_label_scores_speed [of "[]" ?si scored_loadout]
  have a: "track_stats ?si = ''Rotating'' \<and> map_of ([] :: (string \<times> string) list) (str (series ?si)) = None"
    by simp
  with inst have n: "map_of TRACK_STATS_TO_ATTRIBUTES (resolve_track_stats [] ?si) = None"
    by blast
  with inst have "focus_attribute_of (resolve_track_stats [] ?si) = ''speed'' \<and>
      map_sum id score (score_series_entry [] scored_loadout ?si)
        = map_sum id score (score_series_entry [] scored_loadout (?si\<lparr>track_stats := ''Speed''\<rparr>))"
    by blast
  moreover have "map_sum id score (score_series_entry [] scored_loadout
      \<lparr>series = 10, track_stats = ''Speed'', recommended_ts = ''1050 - 1300''\<rparr>) = Inr (- 145)"
  proof -
    have "plain_range ''1050 - 1300'' = Some (1050, 1300)" by code_simp
    then have "score_series_entry [] scored_loadout
        \<lparr>series = 10, track_stats = ''Speed'', recommended_ts = ''1050 - 1300''\<rparr>
      = Inr (series_entry_with_bounds [] scored_loadout
        \<lparr>series = 10, track_stats = ''Speed'', recommended_ts = ''1050 - 1300''\<rparr> 1050 1300)"
      by (simp add: entry_on_plain_range)
    moreover have "score (series_entry_with_bounds [] scored_loadout
        \<lparr>series = 10, track_stats = ''Speed'', recommended_ts = ''1050 - 1300''\<rparr> 1050 1300)
      = - 145" by code_simp
    ultimately show ?thesis by simp
  qed
  ultimately show ?thesis using a n by simp
qed

end
